theory Spec2Isabelle
  imports Complex_Main
begin

section \<open>Python string primitives\<close>

text \<open>
  A Python \<open>str\<close> is modelled as a \<open>string\<close>; one \<open>char\<close> stands for one code point
  below 256. The predicates below are Python's own tables restricted to that range.
\<close>

definition py_isspace :: "char \<Rightarrow> bool" where
  \<comment> \<open>\<open>str.isspace\<close>: TAB..CR, FS..US, space, NEL, NBSP.\<close>
  "py_isspace c =
     (let n = (of_char c :: nat)
      in (9 \<le> n \<and> n \<le> 13) \<or> (28 \<le> n \<and> n \<le> 32) \<or> n = 133 \<or> n = 160)"

definition py_lower_char :: "char \<Rightarrow> char" where
  \<comment> \<open>\<open>str.lower\<close> on one code point: A..Z and the Latin-1 capitals (not the times sign).\<close>
  "py_lower_char c =
     (let n = (of_char c :: nat)
      in if (65 \<le> n \<and> n \<le> 90) \<or> (192 \<le> n \<and> n \<le> 222 \<and> n \<noteq> 215)
         then char_of (n + 32) else c)"

definition lower :: "string \<Rightarrow> string" where
  "lower s = map py_lower_char s"

definition lstrip :: "string \<Rightarrow> string" where
  "lstrip s = dropWhile py_isspace s"

definition rstrip :: "string \<Rightarrow> string" where
  "rstrip s = rev (dropWhile py_isspace (rev s))"

definition strip :: "string \<Rightarrow> string" where
  "strip s = rstrip (lstrip s)"

fun startswith :: "string \<Rightarrow> string \<Rightarrow> bool" where
  "startswith s [] = True"
| "startswith [] (p # ps) = False"
| "startswith (c # cs) (p # ps) = (c = p \<and> startswith cs ps)"

fun contains :: "string \<Rightarrow> string \<Rightarrow> bool" where
  \<comment> \<open>\<open>p in s\<close> on strings.\<close>
  "contains [] p = (p = [])"
| "contains (c # cs) p = (startswith (c # cs) p \<or> contains cs p)"

definition slice_3_minus3 :: "string \<Rightarrow> string" where
  \<comment> \<open>\<open>t[3:-3]\<close>: the stop index is \<open>len(t) - 3\<close>, clamped at 0.\<close>
  "slice_3_minus3 t = drop 3 (take (length t - 3) t)"

section \<open>JSON values and the external collaborators\<close>

datatype json =
    JNull
  | JBool bool
  | JNum real
  | JStr string
  | JArr "json list"
  | JObj "(string \<times> json) list"

fun truthy :: "json \<Rightarrow> bool" where
  \<comment> \<open>Python truth value of a decoded JSON value.\<close>
  "truthy JNull = False"
| "truthy (JBool b) = b"
| "truthy (JNum r) = (r \<noteq> 0)"
| "truthy (JStr s) = (s \<noteq> [])"
| "truthy (JArr xs) = (xs \<noteq> [])"
| "truthy (JObj kvs) = (kvs \<noteq> [])"

definition dict_get :: "(string \<times> json) list \<Rightarrow> string \<Rightarrow> json \<Rightarrow> json" where
  \<comment> \<open>\<open>d.get(k, default)\<close>.\<close>
  "dict_get kvs k dflt = (case map_of kvs k of None \<Rightarrow> dflt | Some v \<Rightarrow> v)"

datatype llm_reply =
    CallFails            \<comment> \<open>\<open>ainvoke\<close> raises (network error, timeout, ...)\<close>
  | NonStrContent        \<comment> \<open>the reply's content is not a \<open>str\<close>\<close>
  | StrContent string

datatype exn = LLMError | ValueError | JSONDecodeError | AttributeError | GroqError

datatype mval = MNone | MStr string | MNum real

record document =
  page_content :: string
  metadata :: "string \<rightharpoonup> mval"

record web_item =
  source :: "string option"
  title :: "string option"
  url :: "string option"
  content :: "string option"

record raw_hit =
  hit_score :: real
  hit_problem :: "string option"
  hit_solution :: "string option"
  hit_topic :: "string option"
  hit_difficulty :: "string option"
  hit_subject :: "string option"
  hit_source_split :: "string option"

record tavily_result =
  res_title :: "string option"
  res_url :: "string option"
  res_content :: "string option option"   \<comment> \<open>\<open>None\<close>: no such key; \<open>Some None\<close>: an explicit null\<close>

datatype tool_outcome =
    ToolRaises                        \<comment> \<open>\<open>local_rag_search.invoke\<close> raises\<close>
  | ToolOutput "raw_hit list option"  \<comment> \<open>the returned dict's \<open>results\<close> entry, if any\<close>

text \<open>
  Everything the nodes call outside this repository: the \<open>json\<close> module, the
  configuration values and the model and search services. A service that the retry loop
  can reach takes the number of graph steps run so far, since it may answer differently
  each time; the two chat models take what their prompt is built from. Building a chat
  client is a call of its own, which can raise, as it does when no API key is configured.
\<close>

record env =
  json_loads :: "string \<Rightarrow> json option"        \<comment> \<open>\<open>None\<close>: \<open>json.loads\<close> raises\<close>
  json_dumps :: "json \<Rightarrow> string"
  GROQ_API_KEY :: string
  RAG_THRESHOLD :: real
  groq_llm :: "string \<Rightarrow> llm_reply"
  local_rag_search :: "string \<Rightarrow> tool_outcome"
  tavily_search :: "nat \<Rightarrow> string \<Rightarrow> tavily_result list option"
  cross_encoder :: "nat \<Rightarrow> (string \<times> string) list \<Rightarrow> real list option"
  qwen_llm :: "nat \<Rightarrow> string \<Rightarrow> document list \<Rightarrow> string option"
  gpt_llm :: "nat \<Rightarrow> string \<Rightarrow> string \<Rightarrow> llm_reply"
  QWEN_API_KEY :: string
  GPT_API_KEY :: string
  chat_groq_raises :: "string \<Rightarrow> bool"    \<comment> \<open>\<open>ChatGroq(api_key=k, ...)\<close> raises\<close>

section \<open>The shared state (graph/state.py)\<close>

text \<open>\<open>MathState\<close> is a \<open>TypedDict\<close> with \<open>total=False\<close>: \<open>None\<close> is an absent key.\<close>

record MathState =
  query :: "string option"
  is_safe :: "bool option"
  is_math :: "bool option"
  broken_queries :: "string list option"
  local_results :: "document list option"
  web_results :: "web_item list option"
  reranked_results :: "document list option"
  reasoning_output :: "string option"
  verification :: "string option"
  final_output :: "string option"
  needs_web_fallback :: "bool option"
  loop_count :: "int option"
  feedback :: "string option"

definition get_str :: "string option \<Rightarrow> string" where
  \<comment> \<open>\<open>state.get(k) or ""\<close>\<close>
  "get_str v = (case v of None \<Rightarrow> [] | Some s \<Rightarrow> s)"

definition get_loop_count :: "MathState \<Rightarrow> int" where
  \<comment> \<open>\<open>state.get("loop_count", 0)\<close>\<close>
  "get_loop_count s = (case loop_count s of None \<Rightarrow> 0 | Some n \<Rightarrow> n)"

definition new_state :: "string \<Rightarrow> MathState" where
  \<comment> \<open>\<open>state: MathState = {"query": user_q}\<close>, as cli/run_agent.py starts a run.\<close>
  "new_state q = \<lparr>
     query = Some q, is_safe = None, is_math = None, broken_queries = None,
     local_results = None, web_results = None, reranked_results = None,
     reasoning_output = None, verification = None, final_output = None,
     needs_web_fallback = None, loop_count = None, feedback = None \<rparr>"

definition setdefault :: "'a option \<Rightarrow> 'a \<Rightarrow> 'a option" where
  \<comment> \<open>\<open>state.setdefault(k, d)\<close> on one key.\<close>
  "setdefault v d = (case v of None \<Rightarrow> Some d | Some x \<Rightarrow> Some x)"

definition get_flag :: "bool option \<Rightarrow> bool \<Rightarrow> bool" where
  \<comment> \<open>\<open>state.get(k, d)\<close> on a boolean key.\<close>
  "get_flag v d = (case v of None \<Rightarrow> d | Some b \<Rightarrow> b)"

section \<open>Input guardrail (nodes/input_guardrail.py)\<close>

definition harmful_keywords :: "string list" where
  "harmful_keywords =
     [''kill'', ''bomb'', ''attack'', ''hack'', ''suicide'', ''nsfw'', ''virus'', ''exploit'']"

definition math_keywords :: "string list" where
  \<comment> \<open>The source has no comma between \<open>"lim"\<close> and \<open>"compute"\<close>: one keyword.\<close>
  "math_keywords =
     [''solve'', ''equation'', ''calculate'', ''find'', ''how many'', ''value'',
      ''integral'', ''derivative'', ''number'', ''arithmatic'', ''angle'', ''axis'',
      ''center'', ''clock'', ''compare'', ''count'', ''total'',
      ''limit'', ''probability'', ''algebra'', ''geometry'', ''matrix'',
      ''expression'', ''formula'', ''constant'', ''variable'', ''trigonometric'',
      ''circle'', ''triangle'', ''degree'', ''percentage'', ''sin'', ''cos'', ''tan'',
      ''limcompute'', ''evaluate'', ''estimate'', ''simplify'', ''function'', ''theorem'',
      ''equals'', ''root'', ''square'', ''linear'', ''polynomial'', ''area'', ''bar'',
      ''factor'', ''time'', ''times'', ''profit'', ''rule'', ''power'', ''solution'',
      ''prove'', ''proof'', ''measure'', ''series'', ''sum'', ''product'', ''ratio'',
      ''vector'', ''graph'', ''algorithm'', ''set'', ''digit'', ''fraction'', ''unit'',
      ''x^'', ''y^'', ''z^'']"

definition msg_empty :: string where
  "msg_empty = ''Invalid query: input is empty.''"

definition msg_unsafe :: string where
  "msg_unsafe = ''Your query appears to contain unsafe or harmful content. '' @
                ''This math agent only answers mathematics questions.''"

definition msg_not_math :: string where
  "msg_not_math = ''This agent only supports mathematics-related questions. '' @
                  ''Please ask a math question (e.g., an equation, proof, or calculation).''"

definition input_guardrail_node :: "MathState \<Rightarrow> MathState" where
  "input_guardrail_node s0 =
     (let q = strip (get_str (query s0));
          s = s0\<lparr>is_safe := setdefault (is_safe s0) False\<rparr>;
          lowered = lower q
      in if q = [] then s\<lparr>is_safe := Some False, reasoning_output := Some msg_empty\<rparr>
         else if list_ex (contains lowered) harmful_keywords
         then s\<lparr>is_safe := Some False, reasoning_output := Some msg_unsafe\<rparr>
         else if \<not> list_ex (contains lowered) math_keywords
         then s\<lparr>is_safe := Some False, reasoning_output := Some msg_not_math\<rparr>
         else s\<lparr>is_safe := Some True\<rparr>)"

section \<open>Router (nodes/router.py)\<close>

definition init_fields :: "MathState \<Rightarrow> MathState" where
  \<comment> \<open>The block of \<open>setdefault\<close> calls; \<open>setdefault("feedback", None)\<close> changes nothing.\<close>
  "init_fields s = s\<lparr>
     broken_queries := setdefault (broken_queries s) [],
     local_results := setdefault (local_results s) [],
     web_results := setdefault (web_results s) [],
     reranked_results := setdefault (reranked_results s) [],
     reasoning_output := setdefault (reasoning_output s) [],
     verification := setdefault (verification s) [],
     needs_web_fallback := setdefault (needs_web_fallback s) False,
     loop_count := setdefault (loop_count s) 0,
     final_output := setdefault (final_output s) [] \<rparr>"

definition router_node :: "MathState \<Rightarrow> MathState" where
  "router_node s =
     (if \<not> get_flag (is_safe s) False then init_fields s
      else (init_fields s)\<lparr>is_math := Some True\<rparr>)"

section \<open>Query breaker (nodes/query_breaker.py)\<close>

fun py_split_from :: "string \<Rightarrow> string \<Rightarrow> string \<Rightarrow> string list" where
  \<comment> \<open>\<open>str.split(sep)\<close>, scanning left to right; the second argument is the piece
      collected so far, reversed. Python raises on an empty separator; no caller passes one.\<close>
  "py_split_from sep acc [] = [rev acc]"
| "py_split_from sep acc (c # cs) =
     (if sep \<noteq> [] \<and> startswith (c # cs) sep
      then rev acc # py_split_from sep [] (drop (length sep - 1) cs)
      else py_split_from sep (c # acc) cs)"

definition py_split :: "string \<Rightarrow> string \<Rightarrow> string list" where
  "py_split s sep = py_split_from sep [] s"

definition triggers :: "string list" where
  "triggers = ['' and '', '' then '', '' also '', '' next '', '' first '', '' second '']"

definition stripped_parts :: "string \<Rightarrow> string \<Rightarrow> string list" where
  \<comment> \<open>\<open>[p.strip() for p in query.split(trig) if p.strip()]\<close>\<close>
  "stripped_parts q trig = filter (\<lambda>p. p \<noteq> []) (map strip (py_split q trig))"

fun split_on_first :: "string \<Rightarrow> string \<Rightarrow> string list \<Rightarrow> string list" where
  \<comment> \<open>The \<open>for trig in triggers\<close> loop: detection on the lowered text, split on the query.\<close>
  "split_on_first q lowered [] = [q]"
| "split_on_first q lowered (trig # rest) =
     (if contains lowered trig then stripped_parts q trig
      else split_on_first q lowered rest)"

definition heuristic_split :: "string \<Rightarrow> string list" where
  "heuristic_split q = split_on_first q (lower q) triggers"

fun json_strs :: "json list \<Rightarrow> string list option" where
  \<comment> \<open>The strings of a decoded list, if \<open>all(isinstance(x, str) for x in subqs)\<close>.\<close>
  "json_strs [] = Some []"
| "json_strs (JStr x # js) = (case json_strs js of None \<Rightarrow> None | Some xs \<Rightarrow> Some (x # xs))"
| "json_strs (_ # js) = None"

definition llm_split :: "env \<Rightarrow> string \<Rightarrow> string list \<times> nat" where
  \<comment> \<open>The sub-queries, and how many calls to the Groq model were made.\<close>
  "llm_split e q =
     (if GROQ_API_KEY e = [] then ([q], 0)
      else (case groq_llm e q of
              StrContent c \<Rightarrow>
                (case json_loads e c of
                   Some (JArr js) \<Rightarrow>
                     (case json_strs js of
                        Some xs \<Rightarrow> (filter (\<lambda>x. x \<noteq> []) (map strip xs), 1)
                      | None \<Rightarrow> ([q], 1))
                 | _ \<Rightarrow> ([q], 1))
            | _ \<Rightarrow> ([q], 1)))"

definition query_breaker :: "env \<Rightarrow> MathState \<Rightarrow> MathState \<times> nat" where
  \<comment> \<open>\<open>query_breaker_node\<close>, with the number of model calls it made.\<close>
  "query_breaker e s =
     (let q = strip (get_str (query s));
          heuristics = heuristic_split q
      in if length heuristics > 1 then (s\<lparr>broken_queries := Some heuristics\<rparr>, 0)
         else (let (subqueries, calls) = llm_split e q;
                   subqueries = (if subqueries = [] then [q] else subqueries)
               in (s\<lparr>broken_queries := Some subqueries\<rparr>, calls)))"

definition query_breaker_node :: "env \<Rightarrow> MathState \<Rightarrow> MathState" where
  "query_breaker_node e s = fst (query_breaker e s)"

section \<open>Local retrieval (nodes/local_rag.py)\<close>

definition get_list :: "'a list option \<Rightarrow> 'a list" where
  \<comment> \<open>\<open>state.get(k) or []\<close>\<close>
  "get_list v = (case v of None \<Rightarrow> [] | Some xs \<Rightarrow> xs)"

definition opt_mval :: "string option \<Rightarrow> mval" where
  "opt_mval v = (case v of None \<Rightarrow> MNone | Some x \<Rightarrow> MStr x)"

definition hit_document :: "raw_hit \<Rightarrow> document option" where
  \<comment> \<open>The body of the loop over the raw matches; \<open>None\<close> is \<open>continue\<close>.\<close>
  "hit_document r =
     (let problem = strip (get_str (hit_problem r));
          solution = strip (get_str (hit_solution r))
      in if problem = [] then None
         else Some \<lparr>
           page_content =
             (if solution \<noteq> []
              then ''Problem: '' @ problem @ ''\<newline>'' @ ''Solution: '' @ solution
              else ''Problem: '' @ problem),
           metadata =
             [''origin'' \<mapsto> MStr ''local_rag'',
              ''score'' \<mapsto> MNum (hit_score r),
              ''topic'' \<mapsto> opt_mval (hit_topic r),
              ''difficulty'' \<mapsto> opt_mval (hit_difficulty r),
              ''subject'' \<mapsto> opt_mval (hit_subject r),
              ''split'' \<mapsto> opt_mval (hit_source_split r)] \<rparr>)"

definition doc_score :: "document \<Rightarrow> real" where
  \<comment> \<open>\<open>float(doc.metadata.get("score", 0.0))\<close>\<close>
  "doc_score d = (case metadata d ''score'' of Some (MNum x) \<Rightarrow> x | _ \<Rightarrow> 0)"

definition retrieval_query :: "MathState \<Rightarrow> string" where
  "retrieval_query s =
     (case get_list (broken_queries s) of
        [] \<Rightarrow> strip (get_str (query s))
      | b # _ \<Rightarrow> strip b)"

definition local_rag_node :: "env \<Rightarrow> MathState \<Rightarrow> MathState" where
  \<comment> \<open>The filter keys and \<open>rag_top_k\<close> are not keys of \<open>MathState\<close>; the tool is called
      with their defaults.\<close>
  "local_rag_node e s =
     (let rq = retrieval_query s
      in if rq = [] then s\<lparr>local_results := Some [], needs_web_fallback := Some True\<rparr>
         else (case local_rag_search e rq of
                 ToolRaises \<Rightarrow> s\<lparr>local_results := Some [], needs_web_fallback := Some True\<rparr>
               | ToolOutput res \<Rightarrow>
                   (let docs = List.map_filter hit_document (get_list res);
                        s1 = s\<lparr>local_results := Some docs\<rparr>
                    in (case docs of
                          [] \<Rightarrow> s1\<lparr>needs_web_fallback := Some True\<rparr>
                        | d # _ \<Rightarrow>
                            s1\<lparr>needs_web_fallback := Some (doc_score d < RAG_THRESHOLD e)\<rparr>))))"

section \<open>External search (nodes/mcp_search.py)\<close>

definition tavily_item :: "tavily_result \<Rightarrow> web_item" where
  \<comment> \<open>\<open>item.get("content", "")\<close>: the default only replaces a missing key.\<close>
  "tavily_item item = \<lparr>
     source = Some ''tavily'', title = res_title item, url = res_url item,
     content = (case res_content item of None \<Rightarrow> Some [] | Some v \<Rightarrow> v) \<rparr>"

definition mcp_search_node :: "env \<Rightarrow> nat \<Rightarrow> MathState \<Rightarrow> MathState" where
  \<comment> \<open>\<open>tavily_search e n q\<close> is the \<open>results\<close> list of the bridge's reply, \<open>None\<close> when the
      bridge times out, fails or answers without one.\<close>
  "mcp_search_node e n s =
     (let q = strip (get_str (query s))
      in if q = [] then s\<lparr>web_results := Some []\<rparr>
         else s\<lparr>web_results := Some (map tavily_item (get_list (tavily_search e n q)))\<rparr>)"

section \<open>Hybrid reranker (nodes/hybrid_reranker.py)\<close>

type_synonym candidate = "string \<times> (string \<rightharpoonup> mval)"

definition RERANK_TOP_K :: nat where
  "RERANK_TOP_K = 8"

definition RERANK_BATCH_SIZE :: nat where
  "RERANK_BATCH_SIZE = 32"

definition make_candidate_from_local :: "document \<Rightarrow> candidate" where
  "make_candidate_from_local d =
     (strip (page_content d),
      (case metadata d ''origin'' of
         None \<Rightarrow> (metadata d)(''origin'' \<mapsto> MStr ''local_rag'')
       | Some _ \<Rightarrow> metadata d))"

fun join_nl :: "string list \<Rightarrow> string" where
  \<comment> \<open>\<open>"\n".join(parts)\<close>\<close>
  "join_nl [] = []"
| "join_nl [p] = p"
| "join_nl (p # ps) = p @ ''\<newline>'' @ join_nl ps"

definition web_origin :: "web_item \<Rightarrow> mval" where
  \<comment> \<open>\<open>item.get("source", "web")\<close>\<close>
  "web_origin w = (case source w of None \<Rightarrow> MStr ''web'' | Some x \<Rightarrow> MStr x)"

definition make_candidate_from_web :: "web_item \<Rightarrow> candidate" where
  "make_candidate_from_web w =
     (let t = strip (get_str (title w));
          u = strip (get_str (url w));
          c = strip (get_str (content w));
          parts = (if t \<noteq> [] then [''Title: '' @ t] else [])
                @ (if u \<noteq> [] then [''URL: '' @ u] else [])
                @ (if c \<noteq> [] then [[], c] else [])
      in (strip (join_nl parts),
          [''origin'' \<mapsto> web_origin w, ''title'' \<mapsto> MStr t, ''url'' \<mapsto> MStr u]))"

definition add_candidates :: "('a \<Rightarrow> candidate) \<Rightarrow> 'a list \<Rightarrow> candidate list \<Rightarrow> candidate list" where
  \<comment> \<open>One \<open>for\<close> loop appending to \<open>candidates_text\<close> and \<open>candidates_meta\<close>; the two
      parallel lists are kept as one list of pairs.\<close>
  "add_candidates mk xs pool =
     foldl (\<lambda>acc x. (case mk x of (text, meta) \<Rightarrow>
                        if text \<noteq> [] then acc @ [(text, meta)] else acc)) pool xs"

definition candidate_pool :: "bool \<Rightarrow> document list \<Rightarrow> web_item list \<Rightarrow> candidate list" where
  "candidate_pool needs_web local_docs web_items =
     add_candidates make_candidate_from_web web_items
       (if \<not> needs_web then add_candidates make_candidate_from_local local_docs [] else [])"

function batch_iter :: "nat \<Rightarrow> 'a list \<Rightarrow> 'a list list" where
  "batch_iter k xs =
     (if k = 0 \<or> xs = [] then [] else take k xs # batch_iter k (drop k xs))"
  by pat_completeness auto
termination
  by (relation "measure (\<lambda>(k, xs). length xs)") auto

fun predict_batches ::
  "((string \<times> string) list \<Rightarrow> real list option) \<Rightarrow> (string \<times> string) list list \<Rightarrow> real list option" where
  \<comment> \<open>\<open>scores.extend(...)\<close> batch by batch; \<open>None\<close> when a \<open>predict\<close> call raises.\<close>
  "predict_batches predict [] = Some []"
| "predict_batches predict (b # bs) =
     (case predict b of
        None \<Rightarrow> None
      | Some xs \<Rightarrow> (case predict_batches predict bs of
                     None \<Rightarrow> None
                   | Some ys \<Rightarrow> Some (xs @ ys)))"

definition score_with_cross_encoder :: "env \<Rightarrow> nat \<Rightarrow> (string \<times> string) list \<Rightarrow> real list option" where
  "score_with_cross_encoder e n pairs =
     predict_batches (cross_encoder e n) (batch_iter RERANK_BATCH_SIZE pairs)"

definition sort_reverse :: "('a \<Rightarrow> real) \<Rightarrow> 'a list \<Rightarrow> 'a list" where
  \<comment> \<open>\<open>list.sort(key=..., reverse=True)\<close>: Python's sort is stable, also in reverse.\<close>
  "sort_reverse key xs = sort_key (\<lambda>x. - key x) xs"

definition scored_document :: "candidate \<times> real \<Rightarrow> document" where
  "scored_document x =
     (case x of ((text, meta), score) \<Rightarrow>
        \<lparr>page_content = text, metadata = meta(''rerank_score'' \<mapsto> MNum score)\<rparr>)"

definition rerank :: "(candidate \<times> real) list \<Rightarrow> document list" where
  \<comment> \<open>Sort, cut to the top K, build the documents.\<close>
  "rerank scored = map scored_document (take RERANK_TOP_K (sort_reverse snd scored))"

definition fallback_web_docs :: "web_item list \<Rightarrow> document list" where
  "fallback_web_docs web_items =
     map (\<lambda>(text, meta). \<lparr>page_content = text, metadata = meta\<rparr>)
       (filter (\<lambda>(text, meta). text \<noteq> [])
          (map make_candidate_from_web (take RERANK_TOP_K web_items)))"

definition hybrid_reranker_node :: "env \<Rightarrow> nat \<Rightarrow> MathState \<Rightarrow> MathState" where
  "hybrid_reranker_node e n s =
     (let q = strip (get_str (query s))
      in if q = [] then s\<lparr>reranked_results := Some []\<rparr>
         else
           (let needs_web = get_flag (needs_web_fallback s) False;
                local_docs = get_list (local_results s);
                web_items = get_list (web_results s);
                pool = candidate_pool needs_web local_docs web_items
            in if pool = [] then s\<lparr>reranked_results := Some []\<rparr>
               else (case score_with_cross_encoder e n (map (\<lambda>c. (q, fst c)) pool) of
                       None \<Rightarrow>
                         (if \<not> needs_web
                          then s\<lparr>reranked_results := Some (take RERANK_TOP_K local_docs)\<rparr>
                          else s\<lparr>reranked_results := Some (fallback_web_docs web_items)\<rparr>)
                     | Some scores \<Rightarrow>
                         s\<lparr>reranked_results := Some (rerank (zip pool scores))\<rparr>)))"

section \<open>Reasoning (nodes/reasoning.py)\<close>

definition msg_reasoning_failed :: string where
  "msg_reasoning_failed = ''Error: The reasoning model failed. '' @
                          ''Please try again or verify the retrieved context.''"

definition reasoning_node :: "env \<Rightarrow> nat \<Rightarrow> MathState \<Rightarrow> exn + MathState" where
  \<comment> \<open>The prompt is built from the query and the reranked documents. The client is built
      before the \<open>try\<close> block, so an exception of its constructor leaves the node; inside
      the block \<open>None\<close> is a call that raises.\<close>
  "reasoning_node e n s =
     (let q = strip (get_str (query s));
          docs = get_list (reranked_results s)
      in if chat_groq_raises e (QWEN_API_KEY e) then Inl GroqError
         else (case qwen_llm e n q docs of
                 Some r \<Rightarrow> Inr (s\<lparr>reasoning_output := Some r\<rparr>)
               | None \<Rightarrow> Inr (s\<lparr>reasoning_output := Some msg_reasoning_failed\<rparr>)))"

section \<open>Verifier (nodes/verifier.py)\<close>

definition strip_code_fence :: "string \<Rightarrow> string" where
  "strip_code_fence text =
     (let t = strip text
      in if startswith t ''``````''
         then (let t1 = strip (slice_3_minus3 t)
               in if startswith (lower t1) ''json'' then strip (drop 4 t1) else t1)
         else t)"

definition safe_default :: json where
  "safe_default = JObj
     [(''is_correct'', JBool False),
      (''issues'', JArr [JStr ''Verifier model failed to evaluate the solution.'']),
      (''improved_answer'',
         JStr (''The system could not verify this solution. '' @
               ''Please try again or solve the problem manually.''))]"

definition verifier_try :: "env \<Rightarrow> llm_reply \<Rightarrow> exn + string" where
  \<comment> \<open>The body of the \<open>try\<close> block: \<open>Inl\<close> is the exception that leaves it.\<close>
  "verifier_try e reply =
     (case reply of
        CallFails \<Rightarrow> Inl LLMError
      | NonStrContent \<Rightarrow> Inl ValueError
      | StrContent c \<Rightarrow>
          (let c1 = strip_code_fence c
           in if \<not> startswith c1 ''{'' then Inl ValueError
              else (case json_loads e c1 of
                      None \<Rightarrow> Inl JSONDecodeError
                    | Some _ \<Rightarrow> Inr c1)))"

definition marked_incorrect :: "env \<Rightarrow> string \<Rightarrow> bool" where
  \<comment> \<open>\<open>isinstance(data, dict) and not data.get("is_correct", True)\<close>, with
      \<open>data = {}\<close> when \<open>json.loads\<close> raises.\<close>
  "marked_incorrect e v =
     (case json_loads e v of
        Some (JObj kvs) \<Rightarrow> \<not> truthy (dict_get kvs ''is_correct'' (JBool True))
      | Some _ \<Rightarrow> False
      | None \<Rightarrow> False)"

definition verifier_store :: "env \<Rightarrow> llm_reply \<Rightarrow> MathState \<Rightarrow> MathState" where
  \<comment> \<open>\<open>verifier_node\<close> from the reply on: \<open>except\<close> handler, store, counter.\<close>
  "verifier_store e reply s =
     (let v = (case verifier_try e reply of
                 Inr c \<Rightarrow> c
               | Inl _ \<Rightarrow> json_dumps e safe_default);
          s1 = s\<lparr>verification := Some v\<rparr>
      in if marked_incorrect e v
         then s1\<lparr>loop_count := Some (get_loop_count s1 + 1)\<rparr>
         else s1)"

definition verifier_node :: "env \<Rightarrow> nat \<Rightarrow> MathState \<Rightarrow> exn + MathState" where
  \<comment> \<open>The client is built before the \<open>try\<close> block, so an exception of its constructor
      leaves the node.\<close>
  "verifier_node e n s =
     (let q = strip (get_str (query s));
          sol = strip (get_str (reasoning_output s))
      in if chat_groq_raises e (GPT_API_KEY e) then Inl GroqError
         else Inr (verifier_store e (gpt_llm e n q sol) s))"

section \<open>Output node (nodes/output_node.py)\<close>

definition startswith_ci :: "string \<Rightarrow> string \<Rightarrow> bool" where
  \<comment> \<open>A literal pattern matched at the front of the text under \<open>re.IGNORECASE\<close>.\<close>
  "startswith_ci s p = (lower (take (length p) s) = lower p)"

fun after_close :: "string \<Rightarrow> string option" where
  \<comment> \<open>The text behind the first closing tag, if there is one.\<close>
  "after_close [] = None"
| "after_close (c # cs) =
     (if startswith_ci (c # cs) ''</think>'' then Some (drop 8 (c # cs)) else after_close cs)"

lemma after_close_length: "after_close s = Some r \<Longrightarrow> length r \<le> length s"
  by (induction s) (auto split: if_splits)

function remove_think :: "string \<Rightarrow> string" where
  \<comment> \<open>\<open>THINK_PATTERN.sub("", text)\<close>: leftmost opening tag that has a closing tag behind
      it, up to the first such closing tag (the pattern is not greedy, dot matches all).\<close>
  "remove_think [] = []"
| "remove_think (c # cs) =
     (if startswith_ci (c # cs) ''<think>''
      then (case after_close (drop 7 (c # cs)) of
              Some rest \<Rightarrow> remove_think rest
            | None \<Rightarrow> c # remove_think cs)
      else c # remove_think cs)"
  by pat_completeness auto
termination
proof (relation "measure length")
  fix c cs rest
  assume "after_close (drop 7 (c # cs)) = Some rest"
  from after_close_length [OF this] show "(rest, c # cs) \<in> measure length"
    by simp
qed auto

definition strip_think_tags :: "string \<Rightarrow> string" where
  "strip_think_tags text = (if text = [] then [] else strip (remove_think text))"

definition is_word_char :: "char \<Rightarrow> bool" where
  \<comment> \<open>\<open>\w\<close> of a \<open>str\<close> pattern: alphanumeric or underscore.\<close>
  "is_word_char c =
     (let n = (of_char c :: nat)
      in (48 \<le> n \<and> n \<le> 57) \<or> (65 \<le> n \<and> n \<le> 90) \<or> n = 95 \<or> (97 \<le> n \<and> n \<le> 122)
         \<or> n = 170 \<or> n = 178 \<or> n = 179 \<or> n = 181 \<or> n = 185 \<or> n = 186
         \<or> (188 \<le> n \<and> n \<le> 190) \<or> (192 \<le> n \<and> n \<le> 214)
         \<or> (216 \<le> n \<and> n \<le> 246) \<or> (248 \<le> n \<and> n \<le> 255))"

definition word_ahead :: "string \<Rightarrow> bool" where
  "word_ahead s = (case s of [] \<Rightarrow> False | c # _ \<Rightarrow> is_word_char c)"

fun remove_phrase :: "string \<Rightarrow> bool \<Rightarrow> string \<Rightarrow> string" where
  \<comment> \<open>\<open>re.sub(r"\bPHRASE\b", "", text, flags=re.IGNORECASE)\<close> for a phrase that starts
      and ends with a letter; the flag says whether the character before the current
      position of the original text is a word character.\<close>
  "remove_phrase p pw [] = []"
| "remove_phrase p pw (c # cs) =
     (if p \<noteq> [] \<and> \<not> pw \<and> startswith_ci (c # cs) p \<and> \<not> word_ahead (drop (length p) (c # cs))
      then remove_phrase p True (drop (length p - 1) cs)
      else c # remove_phrase p (is_word_char c) cs)"

definition FORBIDDEN_PATTERNS :: "string list" where
  "FORBIDDEN_PATTERNS =
     [''as an AI'', ''I am unable to'', ''system prompt'', ''developer message'',
      ''OpenAI policies'', ''reasoning process'', ''chain of thought'']"

fun collapse_newlines :: "string \<Rightarrow> string" where
  \<comment> \<open>\<open>MULTI_NL_PATTERN.sub("\n\n", text)\<close>: a run of three or more newlines becomes
      two, that is, a newline followed by two more newlines is dropped.\<close>
  "collapse_newlines (a # b # c # r) =
     (if a = CHR ''\<newline>'' \<and> b = CHR ''\<newline>'' \<and> c = CHR ''\<newline>''
      then collapse_newlines (b # c # r)
      else a # collapse_newlines (b # c # r))"
| "collapse_newlines s = s"

definition sanitize_output :: "string \<Rightarrow> string" where
  "sanitize_output text =
     (if text = [] then []
      else strip (collapse_newlines
                    (foldl (\<lambda>t pat. remove_phrase pat False t) text FORBIDDEN_PATTERNS)))"

definition parse_verifier_json :: "env \<Rightarrow> string option \<Rightarrow> json option" where
  "parse_verifier_json e raw = (case raw of None \<Rightarrow> None | Some r \<Rightarrow> json_loads e r)"

definition improved_answer_of :: "json option \<Rightarrow> exn + string option" where
  \<comment> \<open>Step 3 of \<open>output_node\<close>; a decoded value that is true but no dict has no \<open>get\<close>.\<close>
  "improved_answer_of v =
     (case v of
        None \<Rightarrow> Inr None
      | Some j \<Rightarrow>
          if \<not> truthy j then Inr None
          else (case j of
                  JObj kvs \<Rightarrow>
                    (case map_of kvs ''improved_answer'' of
                       Some (JStr a) \<Rightarrow> Inr (if strip a \<noteq> [] then Some (strip a) else None)
                     | _ \<Rightarrow> Inr None)
                | _ \<Rightarrow> Inl AttributeError))"

definition clean_text :: "string \<Rightarrow> string" where
  \<comment> \<open>Steps 1 and 2 of \<open>output_node\<close> on the reasoning text.\<close>
  "clean_text r = sanitize_output (strip_think_tags (strip r))"

definition output_node :: "env \<Rightarrow> MathState \<Rightarrow> exn + MathState" where
  "output_node e s =
     (let cleaned = clean_text (get_str (reasoning_output s))
      in (case improved_answer_of (parse_verifier_json e (verification s)) of
            Inl x \<Rightarrow> Inl x
          | Inr improved \<Rightarrow>
              (let final_answer = (case improved of Some a \<Rightarrow> a | None \<Rightarrow> cleaned)
               in Inr (s\<lparr>final_output := Some (strip final_answer)\<rparr>))))"

definition finalize :: "string \<Rightarrow> string" where
  \<comment> \<open>What \<open>output_node\<close> makes of a reasoning text when the verifier offers no
      improved answer.\<close>
  "finalize r = strip (clean_text r)"

section \<open>Feedback node (nodes/feedback_node.py)\<close>

definition feedback_node :: "MathState \<Rightarrow> MathState" where
  \<comment> \<open>Logging only; the state is returned as it came.\<close>
  "feedback_node s = s"

section \<open>The graph (graph/build_graph.py)\<close>

datatype node =
    InputGuardrail | Router | QueryBreaker | LocalRag | McpSearch
  | Reranker | Reasoning | Verifier | OutputGuardrail | Feedback

definition MAX_VERIFICATION_LOOPS :: int where
  "MAX_VERIFICATION_LOOPS = 2"

definition verdict_is_correct :: "env \<Rightarrow> string option \<Rightarrow> bool" where
  \<comment> \<open>The \<open>try\<close> block of \<open>verification_loop\<close>: any exception leaves \<open>True\<close>.\<close>
  "verdict_is_correct e raw =
     (case raw of
        None \<Rightarrow> True
      | Some r \<Rightarrow>
          (case json_loads e r of
             Some (JObj kvs) \<Rightarrow> truthy (dict_get kvs ''is_correct'' (JBool True))
           | _ \<Rightarrow> True))"

definition verification_loop :: "env \<Rightarrow> MathState \<Rightarrow> node" where
  "verification_loop e s =
     (let is_correct = verdict_is_correct e (verification s)
      in if get_loop_count s \<ge> MAX_VERIFICATION_LOOPS then OutputGuardrail
         else if is_correct then OutputGuardrail else McpSearch)"

definition run_node :: "env \<Rightarrow> nat \<Rightarrow> node \<Rightarrow> MathState \<Rightarrow> exn + MathState" where
  \<comment> \<open>The \<open>add_node\<close> table; \<open>n\<close> counts the graph steps run before this one.\<close>
  "run_node e n nd s =
     (case nd of
        InputGuardrail \<Rightarrow> Inr (input_guardrail_node s)
      | Router \<Rightarrow> Inr (router_node s)
      | QueryBreaker \<Rightarrow> Inr (query_breaker_node e s)
      | LocalRag \<Rightarrow> Inr (local_rag_node e s)
      | McpSearch \<Rightarrow> Inr (mcp_search_node e n s)
      | Reranker \<Rightarrow> Inr (hybrid_reranker_node e n s)
      | Reasoning \<Rightarrow> reasoning_node e n s
      | Verifier \<Rightarrow> verifier_node e n s
      | OutputGuardrail \<Rightarrow> output_node e s
      | Feedback \<Rightarrow> Inr (feedback_node s))"

definition next_node :: "env \<Rightarrow> node \<Rightarrow> MathState \<Rightarrow> node option" where
  \<comment> \<open>The edges, read on the state the node returned; \<open>None\<close> is \<open>END\<close>.\<close>
  "next_node e nd s =
     (case nd of
        InputGuardrail \<Rightarrow> if get_flag (is_safe s) False then Some Router else None
      | Router \<Rightarrow> if get_flag (is_math s) True then Some QueryBreaker else None
      | QueryBreaker \<Rightarrow> Some LocalRag
      | LocalRag \<Rightarrow> if get_flag (needs_web_fallback s) False then Some McpSearch else Some Reranker
      | McpSearch \<Rightarrow> Some Reranker
      | Reranker \<Rightarrow> Some Reasoning
      | Reasoning \<Rightarrow> Some Verifier
      | Verifier \<Rightarrow> Some (verification_loop e s)
      | OutputGuardrail \<Rightarrow> Some Feedback
      | Feedback \<Rightarrow> None)"

fun rank :: "node \<Rightarrow> nat" where
  "rank InputGuardrail = 9" | "rank Router = 8" | "rank QueryBreaker = 7"
| "rank LocalRag = 6" | "rank McpSearch = 5" | "rank Reranker = 4" | "rank Reasoning = 3"
| "rank Verifier = 2" | "rank OutputGuardrail = 1" | "rank Feedback = 0"

function run_from :: "env \<Rightarrow> nat \<Rightarrow> node \<Rightarrow> MathState \<Rightarrow> (node \<times> (exn + MathState)) list" where
  \<comment> \<open>The nodes a run executes from a given node on, each with what it returned; the run
      stops at \<open>END\<close> or at a node that raises.\<close>
  "run_from e n nd s =
     (case run_node e n nd s of
        Inl x \<Rightarrow> [(nd, Inl x)]
      | Inr s' \<Rightarrow>
          (nd, Inr s') #
          (case next_node e nd s' of
             None \<Rightarrow> []
           | Some nd' \<Rightarrow> run_from e (Suc n) nd' s'))"
  by pat_completeness auto

definition run_graph :: "env \<Rightarrow> MathState \<Rightarrow> (node \<times> (exn + MathState)) list" where
  \<comment> \<open>\<open>graph.ainvoke(state)\<close>: the edge from \<open>START\<close> leads to the input guardrail.\<close>
  "run_graph e s = run_from e 0 InputGuardrail s"

section \<open>Notions used in the statements, and sample inputs\<close>

definition parse_failure :: "env \<Rightarrow> llm_reply \<Rightarrow> bool" where
  \<comment> \<open>The four ways a verifier reply fails to parse: call error, non-string content,
      a payload not starting with an opening brace, text that is not JSON.\<close>
  "parse_failure e reply =
     (case reply of
        CallFails \<Rightarrow> True
      | NonStrContent \<Rightarrow> True
      | StrContent c \<Rightarrow>
          \<not> startswith (strip_code_fence c) ''{'' \<or> json_loads e (strip_code_fence c) = None)"

definition json_field :: "json \<Rightarrow> string \<Rightarrow> json option" where
  "json_field j k = (case j of JObj kvs \<Rightarrow> map_of kvs k | _ \<Rightarrow> None)"

definition safe_default_text :: string where
  \<comment> \<open>What \<open>json.dumps(..., ensure_ascii=False)\<close> prints for the safe default.\<close>
  \<open>safe_default_text =
     ''{"is_correct": false, "issues": ["Verifier model failed to evaluate the solution."], '' @
     ''"improved_answer": "The system could not verify this solution. '' @
     ''Please try again or solve the problem manually."}''\<close>

definition fenced_reply :: string where
  \<comment> \<open>A valid verdict inside a standard fence tagged \<open>json\<close>.\<close>
  \<open>fenced_reply =
     ''```json\<newline>{"is_correct": true, "issues": [], "improved_answer": "x = 4"}\<newline>```''\<close>

definition offline_env :: env where
  \<comment> \<open>An environment for evaluation: the keys of the two chat models are configured, every
      service is down, and the \<open>json\<close> module is cut down to the one text the nodes print
      themselves.\<close>
  "offline_env = \<lparr>
     json_loads = (\<lambda>t. if t = safe_default_text then Some safe_default else None),
     json_dumps = (\<lambda>j. if j = safe_default then safe_default_text else ''null''),
     GROQ_API_KEY = [],
     RAG_THRESHOLD = 0.80,
     groq_llm = (\<lambda>q. CallFails),
     local_rag_search = (\<lambda>q. ToolRaises),
     tavily_search = (\<lambda>n q. None),
     cross_encoder = (\<lambda>n ps. None),
     qwen_llm = (\<lambda>n q ds. None),
     gpt_llm = (\<lambda>n q sol. CallFails),
     QWEN_API_KEY = ''gsk'',
     GPT_API_KEY = ''gsk'',
     chat_groq_raises = (\<lambda>k. k = []) \<rparr>"

definition nokey_env :: env where
  \<comment> \<open>The same with no key for the verifier's model, as \<open>config.py\<close> leaves it by default.\<close>
  "nokey_env = offline_env\<lparr>GPT_API_KEY := []\<rparr>"












definition rejected :: "MathState \<Rightarrow> bool" where
  \<comment> \<open>The query is empty after trimming, holds an unsafe keyword, or holds no math
      keyword.\<close>
  "rejected s \<longleftrightarrow>
     (let q = strip (get_str (query s))
      in q = [] \<or> list_ex (contains (lower q)) harmful_keywords
         \<or> \<not> list_ex (contains (lower q)) math_keywords)"

definition rejection_message :: "MathState \<Rightarrow> string" where
  \<comment> \<open>The message of the first check that fails, in the order of the source.\<close>
  "rejection_message s =
     (let q = strip (get_str (query s))
      in if q = [] then msg_empty
         else if list_ex (contains (lower q)) harmful_keywords then msg_unsafe
         else msg_not_math)"

definition final_state :: "(node \<times> (exn + MathState)) list \<Rightarrow> MathState option" where
  \<comment> \<open>The state the last node of a run returned.\<close>
  "final_state tr = (case rev tr of (_, Inr s) # _ \<Rightarrow> Some s | _ \<Rightarrow> None)"

definition sample_hit :: "real \<Rightarrow> raw_hit" where
  \<comment> \<open>One match of the index, with a given score.\<close>
  "sample_hit x = \<lparr>
     hit_score = x, hit_problem = Some ''Find x if x^2 = 16'', hit_solution = Some ''x = 4 or x = -4'',
     hit_topic = Some ''Algebra'', hit_difficulty = None, hit_subject = None,
     hit_source_split = None \<rparr>"

definition index_env :: "real \<Rightarrow> env" where
  \<comment> \<open>The evaluation environment with an index that answers with one match.\<close>
  "index_env x = offline_env\<lparr>local_rag_search := (\<lambda>q. ToolOutput (Some [sample_hit x]))\<rparr>"

definition has_text :: "candidate \<Rightarrow> bool" where
  \<comment> \<open>\<open>if text:\<close> in the two merge loops.\<close>
  "has_text c = (fst c \<noteq> [])"

definition doc_rerank_score :: "document \<Rightarrow> real option" where
  \<comment> \<open>\<open>doc.metadata.get("rerank_score")\<close>, when it is a number.\<close>
  "doc_rerank_score d = (case metadata d ''rerank_score'' of Some (MNum x) \<Rightarrow> Some x | _ \<Rightarrow> None)"

definition sample_state :: "bool \<Rightarrow> MathState" where
  \<comment> \<open>A state with two local documents and one web result, for evaluation.\<close>
  "sample_state needs_web = (new_state ''q'')\<lparr>
     local_results := Some [\<lparr>page_content = ''a'', metadata = Map.empty\<rparr>,
                            \<lparr>page_content = ''b'', metadata = Map.empty\<rparr>],
     web_results := Some [\<lparr>source = Some ''tavily'', title = Some ''c'', url = None, content = None\<rparr>],
     needs_web_fallback := Some needs_web \<rparr>"

definition scoring_env :: env where
  \<comment> \<open>The evaluation environment with a scorer that prefers the text \<open>b\<close>.\<close>
  "scoring_env = offline_env\<lparr>cross_encoder :=
     (\<lambda>n pairs. Some (map (\<lambda>p. if snd p = ''b'' then 2 else 1) pairs))\<rparr>"

definition trimmed :: "string \<Rightarrow> bool" where
  \<comment> \<open>No whitespace at either end.\<close>
  "trimmed r \<longleftrightarrow> r = [] \<or> (\<not> py_isspace (hd r) \<and> \<not> py_isspace (last r))"

fun triple_free :: "string \<Rightarrow> bool" where
  \<comment> \<open>No three newlines in a row.\<close>
  "triple_free (a # b # c # r) =
     (\<not> (a = CHR ''\<newline>'' \<and> b = CHR ''\<newline>'' \<and> c = CHR ''\<newline>'') \<and> triple_free (b # c # r))"
| "triple_free s = True"

fun py_join :: "string \<Rightarrow> string list \<Rightarrow> string" where
  \<comment> \<open>\<open>sep.join(parts)\<close>\<close>
  "py_join sep [] = []"
| "py_join sep [p] = p"
| "py_join sep (p # ps) = p @ sep @ py_join sep ps"

definition keyed_env :: env where
  \<comment> \<open>The evaluation environment with a Groq key set, so that the fallback calls the model.\<close>
  "keyed_env = offline_env\<lparr>GROQ_API_KEY := ''gsk''\<rparr>"

definition spec_tokens :: "string list" where
  \<comment> \<open>The specification's connective tokens, in its priority order.\<close>
  "spec_tokens = [''and'', ''then'', ''also'', ''next'', ''first'', ''second'']"

fun spec_word_from :: "string \<Rightarrow> bool \<Rightarrow> string \<Rightarrow> bool" where
  \<comment> \<open>The specification's reading: the token occurs as a whole word, in any letter case;
      the flag says whether the character before is a word character.\<close>
  "spec_word_from tok pw [] = False"
| "spec_word_from tok pw (c # cs) =
     ((\<not> pw \<and> startswith_ci (c # cs) tok \<and> \<not> word_ahead (drop (length tok) (c # cs)))
      \<or> spec_word_from tok (is_word_char c) cs)"

definition spec_has_word :: "string \<Rightarrow> string \<Rightarrow> bool" where
  \<comment> \<open>The specification's reading of a query containing a connective token.\<close>
  "spec_has_word q tok = spec_word_from tok False q"

fun spec_split_from :: "string \<Rightarrow> bool \<Rightarrow> string \<Rightarrow> string \<Rightarrow> string list" where
  \<comment> \<open>The specification's reading of splitting on a token: at each whole-word
      occurrence, in any letter case.\<close>
  "spec_split_from tok pw acc [] = [rev acc]"
| "spec_split_from tok pw acc (c # cs) =
     (if tok \<noteq> [] \<and> \<not> pw \<and> startswith_ci (c # cs) tok \<and> \<not> word_ahead (drop (length tok) (c # cs))
      then rev acc # spec_split_from tok True [] (drop (length tok - 1) cs)
      else spec_split_from tok (is_word_char c) (c # acc) cs)"

definition spec_fragments :: "string \<Rightarrow> string \<Rightarrow> string list" where
  \<comment> \<open>The specification's trimmed non-empty fragments.\<close>
  "spec_fragments q tok = filter (\<lambda>p. p \<noteq> []) (map strip (spec_split_from tok False [] q))"

definition example_query :: string where
  \<comment> \<open>The two-part query of the specification.\<close>
  "example_query = ''First solve x^2=16 and then find derivative of x^3.''"

definition comma_query :: string where
  \<comment> \<open>A query whose connective word is followed by a comma.\<close>
  "comma_query = ''find x next, find y''"

section \<open>Every run ends\<close>

lemma lc_guard: "get_loop_count (input_guardrail_node s) = get_loop_count s"
  by (simp add: input_guardrail_node_def get_loop_count_def Let_def)

lemma lc_router: "get_loop_count (router_node s) = get_loop_count s"
  by (simp add: router_node_def init_fields_def get_loop_count_def setdefault_def split: option.splits)

lemma lc_query_breaker: "get_loop_count (query_breaker_node e s) = get_loop_count s"
  by (simp add: query_breaker_node_def query_breaker_def get_loop_count_def Let_def split: prod.splits)

lemma lc_local_rag: "get_loop_count (local_rag_node e s) = get_loop_count s"
  by (simp add: local_rag_node_def get_loop_count_def Let_def split: tool_outcome.splits list.splits)

lemma lc_mcp_search: "get_loop_count (mcp_search_node e n s) = get_loop_count s"
  by (simp add: mcp_search_node_def get_loop_count_def Let_def)

lemma lc_reranker: "get_loop_count (hybrid_reranker_node e n s) = get_loop_count s"
  by (simp add: hybrid_reranker_node_def get_loop_count_def Let_def split: option.splits)

lemma lc_reasoning: "reasoning_node e n s = Inr s' \<Longrightarrow> get_loop_count s' = get_loop_count s"
  by (auto simp: reasoning_node_def get_loop_count_def Let_def split: option.splits if_splits)

lemma lc_output: "output_node e s = Inr s' \<Longrightarrow> get_loop_count s' = get_loop_count s"
  by (auto simp: output_node_def get_loop_count_def Let_def split: sum.splits)

lemma verifier_node_fields:
  "verifier_node e n s = Inr s' \<Longrightarrow>
   \<exists>v. verification s' = Some v
     \<and> get_loop_count s' = get_loop_count s + (if marked_incorrect e v then 1 else 0)"
  by (auto simp: verifier_node_def verifier_store_def get_loop_count_def Let_def split: if_splits)

lemma verdict_marked: "verdict_is_correct e (Some v) = (\<not> marked_incorrect e v)"
  by (simp add: verdict_is_correct_def marked_incorrect_def split: option.splits json.splits)

lemma loop_back_iff:
  "verification_loop e s = McpSearch \<longleftrightarrow>
     get_loop_count s < 2 \<and> \<not> verdict_is_correct e (verification s)"
  by (auto simp: verification_loop_def MAX_VERIFICATION_LOOPS_def Let_def)

termination run_from
proof (relation "measures [\<lambda>(e, n, nd, s). nat (2 - get_loop_count s), \<lambda>(e, n, nd, s). rank nd]")
  fix e n nd s s' nd'
  assume run: "run_node e n nd s = Inr s'" and nxt: "next_node e nd s' = Some nd'"
  show "((e, Suc n, nd', s'), (e, n, nd, s))
        \<in> measures [\<lambda>(e, n, nd, s). nat (2 - get_loop_count s), \<lambda>(e, n, nd, s). rank nd]"
  proof (cases "nd = Verifier")
    case False
    with run have "get_loop_count s' = get_loop_count s"
      by (cases nd) (auto simp: run_node_def lc_guard lc_router lc_query_breaker lc_local_rag
            lc_mcp_search lc_reranker lc_reasoning lc_output feedback_node_def)
    moreover from False nxt have "rank nd' < rank nd"
      by (cases nd) (auto simp: next_node_def split: if_splits)
    ultimately show ?thesis by simp
  next
    case True
    with run have vn: "verifier_node e n s = Inr s'" by (simp add: run_node_def)
    from verifier_node_fields [OF vn] obtain v where
      v: "verification s' = Some v"
      and lc: "get_loop_count s' = get_loop_count s + (if marked_incorrect e v then 1 else 0)"
      by blast
    from True nxt have nd': "nd' = verification_loop e s'" by (simp add: next_node_def)
    show ?thesis
    proof (cases "nd' = McpSearch")
      case True
      with nd' have "get_loop_count s' < 2" "\<not> verdict_is_correct e (verification s')"
        using loop_back_iff [of e s'] by auto
      with v lc have "get_loop_count s' = get_loop_count s + 1" "get_loop_count s' < 2"
        by (auto simp: verdict_marked split: if_splits)
      then show ?thesis by simp
    next
      case False
      with nd' have "nd' = OutputGuardrail"
        by (auto simp: verification_loop_def Let_def split: if_splits)
      with \<open>nd = Verifier\<close> lc show ?thesis by (auto split: if_splits)
    qed
  qed
qed simp

section \<open>Facts about the string primitives\<close>

lemma startswith_iff: "startswith s p \<longleftrightarrow> (\<exists>r. s = p @ r)"
  by (induction s p rule: startswith.induct) auto

lemma lstrip_nonspace: "\<not> py_isspace c \<Longrightarrow> lstrip (c # cs) = c # cs"
  by (simp add: lstrip_def)

lemma rstrip_keeps_head: "\<not> py_isspace c \<Longrightarrow> \<exists>r. rstrip (c # cs) = c # r"
proof -
  assume c: "\<not> py_isspace c"
  have "rstrip (c # cs) =
          c # (if \<forall>x\<in>set cs. py_isspace x then [] else rev (dropWhile py_isspace (rev cs)))"
    using c by (simp add: rstrip_def dropWhile_append)
  then show ?thesis by blast
qed

lemma strip_keeps_head: "\<not> py_isspace c \<Longrightarrow> \<exists>r. strip (c # cs) = c # r"
  by (simp add: strip_def lstrip_nonspace rstrip_keeps_head)

lemma backtick_not_space: "\<not> py_isspace (CHR 0x60)"
  by (simp add: py_isspace_def)

lemma backtick_lower: "py_lower_char (CHR 0x60) = CHR 0x60"
  by (simp add: py_lower_char_def)

lemma slice_of_fenced:
  "slice_3_minus3 (''``````'' @ r) = take (length r) (''```'' @ r)"
  by (simp add: slice_3_minus3_def)

lemma slice_of_fenced_cases:
  "slice_3_minus3 (''``````'' @ r) = [] \<or> (\<exists>u. slice_3_minus3 (''``````'' @ r) = CHR 0x60 # u)"
  unfolding slice_of_fenced by (cases r) auto

lemma strip_Nil: "strip [] = []"
  by (simp add: strip_def lstrip_def rstrip_def)

lemma fence_never_opens_brace:
  assumes "startswith (strip text) ''```''"
  shows "\<not> startswith (strip_code_fence text) ''{''"
proof (cases "startswith (strip text) ''``````''")
  case False
  with assms show ?thesis
    by (auto simp: strip_code_fence_def startswith_iff)
next
  case True
  then obtain r where t: "strip text = ''``````'' @ r"
    by (auto simp: startswith_iff)
  let ?t1 = "strip (slice_3_minus3 (strip text))"
  have t1: "?t1 = [] \<or> (\<exists>u. ?t1 = CHR 0x60 # u)"
    using slice_of_fenced_cases [of r] strip_keeps_head [OF backtick_not_space]
    unfolding t by (metis strip_Nil)
  then have nj: "\<not> startswith (lower ?t1) ''json''"
    by (auto simp: lower_def backtick_lower)
  have "strip_code_fence text = ?t1"
    using True nj by (simp add: strip_code_fence_def Let_def)
  with t1 show ?thesis by auto
qed

section \<open>Verifier: parsing policy\<close>

lemma verifier_try_failure: "parse_failure e reply \<Longrightarrow> \<exists>x. verifier_try e reply = Inl x"
  by (auto simp: parse_failure_def verifier_try_def Let_def split: llm_reply.splits)

text \<open>
  C5 (as amended). Once the chat client is built, a verifier reply that fails to parse (the
  call raises, the content is not a string, the payload left after fence stripping does
  not start with an opening brace, or it is not JSON) never leaves the node as an
  exception: \<open>verifier_node\<close> returns a state whose \<open>verification\<close> is the dumped safe default,
  and that default has \<open>is_correct\<close> false, one issue naming the verifier failure, and an
  \<open>improved_answer\<close> asking to try again.
\<close>

theorem verifier_failure_stores_safe_default:
  assumes "\<not> chat_groq_raises e (GPT_API_KEY e)"
    and "parse_failure e (gpt_llm e n (strip (get_str (query s))) (strip (get_str (reasoning_output s))))"
  shows "(\<exists>s'. verifier_node e n s = Inr s'
              \<and> verification s' = Some (json_dumps e safe_default))
       \<and> json_field safe_default ''is_correct'' = Some (JBool False)
       \<and> json_field safe_default ''issues'' =
           Some (JArr [JStr ''Verifier model failed to evaluate the solution.''])
       \<and> json_field safe_default ''improved_answer'' =
           Some (JStr (''The system could not verify this solution. '' @
                       ''Please try again or solve the problem manually.''))"
proof -
  from verifier_try_failure [OF assms(2)] obtain x where
    "verifier_try e (gpt_llm e n (strip (get_str (query s))) (strip (get_str (reasoning_output s)))) = Inl x" ..
  with assms(1) have "\<exists>s'. verifier_node e n s = Inr s'
              \<and> verification s' = Some (json_dumps e safe_default)"
    by (simp add: verifier_node_def verifier_store_def Let_def)
  then show ?thesis
    by (simp add: json_field_def safe_default_def)
qed

theorem verifier_failure_stores_safe_default_witness:
  "\<not> chat_groq_raises offline_env (GPT_API_KEY offline_env)
   \<and> parse_failure offline_env
     (gpt_llm offline_env 0 (strip (get_str (query (new_state ''2+2''))))
        (strip (get_str (reasoning_output (new_state ''2+2'')))))
   \<and> (\<exists>s'. verifier_node offline_env 0 (new_state ''2+2'') = Inr s'
           \<and> verification s' = Some safe_default_text)"
proof -
  have k: "\<not> chat_groq_raises offline_env (GPT_API_KEY offline_env)"
    by (simp add: offline_env_def)
  have f: "parse_failure offline_env
     (gpt_llm offline_env 0 (strip (get_str (query (new_state ''2+2''))))
        (strip (get_str (reasoning_output (new_state ''2+2'')))))"
    by (simp add: offline_env_def parse_failure_def)
  have d: "json_dumps offline_env safe_default = safe_default_text"
    by (simp add: offline_env_def)
  from verifier_failure_stores_safe_default [OF k f]
  have "\<exists>s'. verifier_node offline_env 0 (new_state ''2+2'') = Inr s'
           \<and> verification s' = Some safe_default_text"
    unfolding d by blast
  with k f show ?thesis by blast
qed

text \<open>
  The specification's sentence does not hold as written: the client of the verifier's
  model is built before the \<open>try\<close> block, and with no API key configured its constructor
  raises; the node then raises and stores nothing, although the call it was about to make
  would have failed.
\<close>

theorem verifier_raises_without_key:
  "parse_failure nokey_env
     (gpt_llm nokey_env 0 (strip (get_str (query (new_state ''2+2''))))
        (strip (get_str (reasoning_output (new_state ''2+2'')))))
   \<and> verifier_node nokey_env 0 (new_state ''2+2'') = Inl GroqError"
  by (simp add: nokey_env_def offline_env_def parse_failure_def verifier_node_def)

text \<open>
  C6. The fence test of \<open>_strip_code_fence\<close> looks for six backticks and then cuts three
  from each end, so a reply that opens with a standard three-backtick fence never reaches
  the JSON check with an opening brace in front: whatever it wraps, the verifier stores the
  safe default instead of the inner JSON.
\<close>

theorem fenced_reply_gets_safe_default:
  assumes "startswith (strip c) ''```''"
  shows "verification (verifier_store e (StrContent c) s) = Some (json_dumps e safe_default)"
proof -
  have "verifier_try e (StrContent c) = Inl ValueError"
    using fence_never_opens_brace [OF assms] by (simp add: verifier_try_def)
  then show ?thesis
    by (simp add: verifier_store_def Let_def)
qed

lemma strip_fenced_reply: "strip fenced_reply = fenced_reply"
  by code_simp

theorem fenced_reply_gets_safe_default_witness:
  \<open>startswith (strip fenced_reply) ''```''
   \<and> verification
       (verifier_store
          (offline_env\<lparr>json_loads := (\<lambda>t.
             if t = ''{"is_correct": true, "issues": [], "improved_answer": "x = 4"}''
             then Some (JObj [(''is_correct'', JBool True), (''issues'', JArr []),
                              (''improved_answer'', JStr ''x = 4'')])
             else json_loads offline_env t)\<rparr>)
          (StrContent fenced_reply) (new_state ''x^2 = 16'')) = Some safe_default_text\<close>
proof -
  have h: "startswith (strip fenced_reply) ''```''"
    unfolding strip_fenced_reply by (simp add: fenced_reply_def)
  show ?thesis
    using h fenced_reply_gets_safe_default [OF h] by (simp add: offline_env_def)
qed

section \<open>The retry loop\<close>


























section \<open>Verifier failures and the retry budget\<close>























section \<open>Rejected queries\<close>

lemma guardrail_rejects:
  "rejected s \<Longrightarrow>
   input_guardrail_node s = s\<lparr>is_safe := Some False, reasoning_output := Some (rejection_message s)\<rparr>"
  by (auto simp: rejected_def rejection_message_def input_guardrail_node_def Let_def)

lemma guardrail_accepts:
  "\<not> rejected s \<Longrightarrow> input_guardrail_node s = s\<lparr>is_safe := Some True\<rparr>"
  by (auto simp: rejected_def input_guardrail_node_def Let_def)

lemma rejected_run:
  assumes "rejected s"
  shows "run_graph e s =
           [(InputGuardrail, Inr (s\<lparr>is_safe := Some False,
                                     reasoning_output := Some (rejection_message s)\<rparr>))]"
  using guardrail_rejects [OF assms]
  by (simp add: run_graph_def run_from.simps [of e 0 InputGuardrail s] run_node_def
        next_node_def get_flag_def)

text \<open>
  C8 (as amended). A rejected query (empty after trimming, or with an unsafe keyword, or
  without a math keyword) ends the run at the input guardrail: that node is the only one
  that runs, it sets \<open>is_safe\<close> to false and stores the message of the failed check in
  \<open>reasoning_output\<close>, and \<open>final_output\<close> stays as the caller passed it.
\<close>

theorem rejected_query_ends_at_guardrail:
  assumes "rejected s"
  shows "run_graph e s =
           [(InputGuardrail, Inr (s\<lparr>is_safe := Some False,
                                     reasoning_output := Some (rejection_message s)\<rparr>))]
       \<and> map fst (run_graph e s) = [InputGuardrail]
       \<and> map_option reasoning_output (final_state (run_graph e s)) = Some (Some (rejection_message s))
       \<and> map_option final_output (final_state (run_graph e s)) = Some (final_output s)"
  by (simp add: rejected_run [OF assms] final_state_def)

lemma hacking_rejected: "rejected (new_state ''What is hacking?'')"
  by code_simp

lemma hacking_message: "rejection_message (new_state ''What is hacking?'') = msg_unsafe"
  by code_simp

lemma blank_rejected: "rejected (new_state ''   '')"
  by code_simp

lemma blank_message: "rejection_message (new_state ''   '') = msg_empty"
  by code_simp

theorem rejected_query_ends_at_guardrail_witness:
  "rejected (new_state ''   '')
   \<and> map fst (run_graph offline_env (new_state ''   '')) = [InputGuardrail]
   \<and> map_option reasoning_output (final_state (run_graph offline_env (new_state ''   '')))
       = Some (Some msg_empty)"
  using blank_rejected
    rejected_query_ends_at_guardrail [OF blank_rejected, of offline_env, unfolded blank_message]
  by blast

text \<open>
  The specification's sentence does not hold as written: for the new session with the query of the repository's own
  guardrail test, the run ends at the guardrail with \<open>final_output\<close> unset; the rejection
  message is in \<open>reasoning_output\<close>.
\<close>

theorem rejection_message_not_in_final_output:
  "rejected (new_state ''What is hacking?'')
   \<and> map fst (run_graph offline_env (new_state ''What is hacking?'')) = [InputGuardrail]
   \<and> map_option final_output (final_state (run_graph offline_env (new_state ''What is hacking?'')))
       = Some None
   \<and> map_option reasoning_output (final_state (run_graph offline_env (new_state ''What is hacking?'')))
       = Some (Some msg_unsafe)"
proof -
  note r = rejected_run [OF hacking_rejected, of offline_env, unfolded hacking_message]
  have "final_output (new_state ''What is hacking?'') = None"
    by (simp add: new_state_def)
  then show ?thesis
    unfolding r using hacking_rejected by (simp add: final_state_def)
qed

section \<open>The fallback decision\<close>

text \<open>
  C4. After local retrieval, \<open>needs_web_fallback\<close> is true exactly when the list of local
  documents is empty or the score of its first document is strictly below the threshold;
  a first score equal to the threshold gives false; a tool call that raises leaves an
  empty list and forces the fallback; and a document carries the score of its match.
\<close>

theorem local_rag_fallback_decision:
  "needs_web_fallback (local_rag_node e s) =
     Some (case get_list (local_results (local_rag_node e s)) of
             [] \<Rightarrow> True
           | d # _ \<Rightarrow> doc_score d < RAG_THRESHOLD e)
   \<and> (\<forall>d ds. local_results (local_rag_node e s) = Some (d # ds) \<and> doc_score d = RAG_THRESHOLD e
         \<longrightarrow> needs_web_fallback (local_rag_node e s) = Some False)
   \<and> (local_rag_search e (retrieval_query s) = ToolRaises \<longrightarrow>
         local_results (local_rag_node e s) = Some []
       \<and> needs_web_fallback (local_rag_node e s) = Some True)
   \<and> (\<forall>r d. hit_document r = Some d \<longrightarrow> doc_score d = hit_score r)"
proof -
  have a: "needs_web_fallback (local_rag_node e s) =
     Some (case get_list (local_results (local_rag_node e s)) of
             [] \<Rightarrow> True
           | d # _ \<Rightarrow> doc_score d < RAG_THRESHOLD e)"
    by (simp add: local_rag_node_def Let_def get_list_def
          split: tool_outcome.splits list.splits option.splits)
  have b: "\<forall>d ds. local_results (local_rag_node e s) = Some (d # ds) \<and> doc_score d = RAG_THRESHOLD e
         \<longrightarrow> needs_web_fallback (local_rag_node e s) = Some False"
    unfolding a by (auto simp: get_list_def)
  have c: "local_rag_search e (retrieval_query s) = ToolRaises \<longrightarrow>
         local_results (local_rag_node e s) = Some []
       \<and> needs_web_fallback (local_rag_node e s) = Some True"
    by (simp add: local_rag_node_def Let_def)
  have d: "\<forall>r d. hit_document r = Some d \<longrightarrow> doc_score d = hit_score r"
    by (auto simp: hit_document_def doc_score_def Let_def split: if_splits)
  from a b c d show ?thesis by blast
qed

lemma sample_query: "retrieval_query (new_state ''Find x'') = ''Find x''"
  by code_simp

lemma sample_document: "\<exists>d. hit_document (sample_hit x) = Some d \<and> doc_score d = x"
proof -
  have "strip (''Find x if x^2 = 16'') \<noteq> []" by code_simp
  then show ?thesis
    by (simp add: hit_document_def sample_hit_def get_str_def doc_score_def Let_def)
qed

lemma sample_results:
  "\<exists>d. local_results (local_rag_node (index_env x) (new_state ''Find x'')) = Some [d] \<and> doc_score d = x"
proof -
  from sample_document [of x] obtain d where d: "hit_document (sample_hit x) = Some d" "doc_score d = x"
    by blast
  have "local_results (local_rag_node (index_env x) (new_state ''Find x'')) = Some [d]"
    using d(1)
    by (simp add: local_rag_node_def sample_query index_env_def get_list_def List.map_filter_simps Let_def)
  with d(2) show ?thesis by blast
qed

theorem local_rag_fallback_decision_witness:
  "local_rag_search offline_env (retrieval_query (new_state ''Find x'')) = ToolRaises
   \<and> local_results (local_rag_node offline_env (new_state ''Find x'')) = Some []
   \<and> needs_web_fallback (local_rag_node offline_env (new_state ''Find x'')) = Some True
   \<and> needs_web_fallback (local_rag_node (index_env 0.80) (new_state ''Find x'')) = Some False
   \<and> needs_web_fallback (local_rag_node (index_env 0.5) (new_state ''Find x'')) = Some True
   \<and> needs_web_fallback (local_rag_node (index_env 0.95) (new_state ''Find x'')) = Some False"
proof -
  have t: "RAG_THRESHOLD (index_env x) = 0.80" for x
    by (simp add: index_env_def offline_env_def)
  have r: "local_rag_search offline_env (retrieval_query (new_state ''Find x'')) = ToolRaises"
    by (simp add: offline_env_def)
  have n: "needs_web_fallback (local_rag_node (index_env x) (new_state ''Find x'')) = Some (x < 0.80)" for x
    using sample_results [of x]
      local_rag_fallback_decision [of "index_env x" "new_state ''Find x''"]
    by (auto simp: t get_list_def)
  show ?thesis
    using r local_rag_fallback_decision [of offline_env "new_state ''Find x''"]
      n [of "0.80"] n [of "0.5"] n [of "0.95"]
    by (simp add: get_list_def)
qed

section \<open>Merging and reranking\<close>

lemma add_candidates_eq:
  "add_candidates mk xs pool = pool @ filter has_text (map mk xs)"
  by (induction xs arbitrary: pool)
     (auto simp: add_candidates_def has_text_def split: prod.splits)

lemma candidate_pool_eq:
  "candidate_pool needs_web local_docs web_items =
     (if needs_web then [] else filter has_text (map make_candidate_from_local local_docs))
     @ filter has_text (map make_candidate_from_web web_items)"
  by (simp add: candidate_pool_def add_candidates_eq)

lemma web_candidate_origin: "snd (make_candidate_from_web w) ''origin'' = Some (web_origin w)"
  by (simp add: make_candidate_from_web_def Let_def)

lemma rerank_member:
  assumes "d \<in> set (rerank scored)"
  shows "\<exists>c x. (c, x) \<in> set scored \<and> page_content d = fst c
           \<and> metadata d ''origin'' = snd c ''origin''"
proof -
  from assms obtain y where y: "y \<in> set (take RERANK_TOP_K (sort_reverse snd scored))"
    and d: "d = scored_document y"
    by (auto simp: rerank_def)
  from y have m: "y \<in> set scored"
    by (auto simp: sort_reverse_def dest: in_set_takeD)
  obtain t meta x where yx: "y = ((t, meta), x)" by (cases y) auto
  with d have "page_content d = fst (t, meta)" "metadata d ''origin'' = snd (t, meta) ''origin''"
    by (simp_all add: scored_document_def)
  with m yx show ?thesis by blast
qed

lemma fallback_member:
  assumes "d \<in> set (fallback_web_docs ws)"
  shows "\<exists>w \<in> set ws. page_content d = fst (make_candidate_from_web w)
           \<and> metadata d ''origin'' = Some (web_origin w)"
proof -
  from assms obtain c where c: "c \<in> set (map make_candidate_from_web (take RERANK_TOP_K ws))"
    and d: "d = \<lparr>page_content = fst c, metadata = snd c\<rparr>"
    by (auto simp: fallback_web_docs_def case_prod_beta)
  from c obtain w where w: "w \<in> set ws" "c = make_candidate_from_web w"
    by (auto dest: in_set_takeD)
  with d web_candidate_origin [of w] show ?thesis by auto
qed

lemma reranker_ignores_local:
  assumes "get_flag (needs_web_fallback s) False"
  shows "reranked_results (hybrid_reranker_node e n (s\<lparr>local_results := ls\<rparr>))
           = reranked_results (hybrid_reranker_node e n s)"
  using assms
  by (simp add: hybrid_reranker_node_def candidate_pool_eq Let_def split: option.splits)

lemma reranker_web_only:
  assumes nw: "get_flag (needs_web_fallback s) False"
    and d: "d \<in> set (get_list (reranked_results (hybrid_reranker_node e n s)))"
  shows "\<exists>w \<in> set (get_list (web_results s)).
           page_content d = fst (make_candidate_from_web w)
         \<and> metadata d ''origin'' = Some (web_origin w)"
proof -
  let ?ws = "get_list (web_results s)"
  let ?pool = "filter has_text (map make_candidate_from_web ?ws)"
  have pool: "candidate_pool True (get_list (local_results s)) ?ws = ?pool"
    by (simp add: candidate_pool_eq)
  from d nw consider
      (scored) scores where "d \<in> set (rerank (zip ?pool scores))"
    | (fallback) "d \<in> set (fallback_web_docs ?ws)"
    by (auto simp: hybrid_reranker_node_def pool Let_def get_list_def [of "Some _"]
          split: if_splits option.splits)
  then show ?thesis
  proof cases
    case scored
    from rerank_member [OF scored] obtain c x where
      cx: "(c, x) \<in> set (zip ?pool scores)" "page_content d = fst c"
          "metadata d ''origin'' = snd c ''origin''" by blast
    from cx(1) have "c \<in> set ?pool" by (rule set_zip_leftD)
    then obtain w where "w \<in> set ?ws" "c = make_candidate_from_web w" by auto
    with cx web_candidate_origin [of w] show ?thesis by auto
  next
    case fallback
    from fallback_member [OF this] show ?thesis .
  qed
qed

lemma reranker_empty_pool:
  assumes "candidate_pool (get_flag (needs_web_fallback s) False)
             (get_list (local_results s)) (get_list (web_results s)) = []"
  shows "reranked_results (hybrid_reranker_node e n s) = Some []"
  using assms by (simp add: hybrid_reranker_node_def Let_def)

lemma reranker_no_query:
  "strip (get_str (query s)) = [] \<Longrightarrow> reranked_results (hybrid_reranker_node e n s) = Some []"
  by (simp add: hybrid_reranker_node_def Let_def)

lemma reranker_strong_local:
  assumes "\<not> get_flag (needs_web_fallback s) False" "strip (get_str (query s)) \<noteq> []"
  shows "reranked_results (hybrid_reranker_node e n s) =
           (let pool = filter has_text (map make_candidate_from_local (get_list (local_results s)))
                     @ filter has_text (map make_candidate_from_web (get_list (web_results s)))
            in if pool = [] then Some []
               else (case score_with_cross_encoder e n
                            (map (\<lambda>c. (strip (get_str (query s)), fst c)) pool) of
                       None \<Rightarrow> Some (take RERANK_TOP_K (get_list (local_results s)))
                     | Some scores \<Rightarrow> Some (rerank (zip pool scores))))"
  using assms
  by (simp add: hybrid_reranker_node_def candidate_pool_eq Let_def split: option.splits)

lemma reranker_weak_local:
  assumes "get_flag (needs_web_fallback s) False" "strip (get_str (query s)) \<noteq> []"
  shows "reranked_results (hybrid_reranker_node e n s) =
           (let pool = filter has_text (map make_candidate_from_web (get_list (web_results s)))
            in if pool = [] then Some []
               else (case score_with_cross_encoder e n
                            (map (\<lambda>c. (strip (get_str (query s)), fst c)) pool) of
                       None \<Rightarrow> Some (fallback_web_docs (get_list (web_results s)))
                     | Some scores \<Rightarrow> Some (rerank (zip pool scores))))"
  using assms
  by (simp add: hybrid_reranker_node_def candidate_pool_eq Let_def split: option.splits)

lemma scored_document_origin:
  "(page_content (scored_document x), metadata (scored_document x) ''origin'')
     = (fst (fst x), snd (fst x) ''origin'')"
  by (cases x) (auto simp: scored_document_def)

lemma rerank_keeps_all:
  assumes "length scores = length pool" "length pool \<le> RERANK_TOP_K"
  shows "length (rerank (zip pool scores)) = length pool"
    and "set (map (\<lambda>d. (page_content d, metadata d ''origin'')) (rerank (zip pool scores)))
           = set (map (\<lambda>c. (fst c, snd c ''origin'')) pool)"
proof -
  have t: "take RERANK_TOP_K (sort_reverse snd (zip pool scores)) = sort_reverse snd (zip pool scores)"
    using assms by (simp add: sort_reverse_def)
  show "length (rerank (zip pool scores)) = length pool"
    using assms by (simp add: rerank_def t) (simp add: sort_reverse_def)
  have "set (map (\<lambda>d. (page_content d, metadata d ''origin'')) (rerank (zip pool scores)))
          = (\<lambda>x. (fst (fst x), snd (fst x) ''origin'')) ` set (zip pool scores)"
    unfolding rerank_def t
    by (simp add: image_image scored_document_origin) (simp add: sort_reverse_def)
  also have "\<dots> = (\<lambda>c. (fst c, snd c ''origin'')) ` set (map fst (zip pool scores))"
    by (simp add: image_image)
  also have "map fst (zip pool scores) = pool"
    using assms(1) by simp
  finally show "set (map (\<lambda>d. (page_content d, metadata d ''origin'')) (rerank (zip pool scores)))
           = set (map (\<lambda>c. (fst c, snd c ''origin'')) pool)"
    by simp
qed

lemma reranker_keeps_all:
  assumes nf: "\<not> get_flag (needs_web_fallback s) False"
    and q: "strip (get_str (query s)) \<noteq> []"
    and p: "pool = filter has_text (map make_candidate_from_local (get_list (local_results s)))
                 @ filter has_text (map make_candidate_from_web (get_list (web_results s)))"
    and sc: "score_with_cross_encoder e n (map (\<lambda>c. (strip (get_str (query s)), fst c)) pool)
               = Some scores"
    and len: "length scores = length pool" "length pool \<le> RERANK_TOP_K"
  shows "length (get_list (reranked_results (hybrid_reranker_node e n s))) = length pool
       \<and> set (map (\<lambda>d. (page_content d, metadata d ''origin''))
                (get_list (reranked_results (hybrid_reranker_node e n s))))
           = set (map (\<lambda>c. (fst c, snd c ''origin'')) pool)"
proof -
  note r = reranker_strong_local [OF nf q, of e n, folded p]
  show ?thesis
  proof (cases "pool = []")
    case True
    with r show ?thesis
      by (simp add: Let_def get_list_def)
  next
    case False
    with r sc
    have "reranked_results (hybrid_reranker_node e n s) = Some (rerank (zip pool scores))"
      by (simp add: Let_def)
    with rerank_keeps_all [OF len] show ?thesis
      by (simp add: get_list_def)
  qed
qed

text \<open>
  C2. With \<open>needs_web_fallback\<close> true the reranked output does not depend on the local
  documents at all, and each of its documents is built from one of the web results, with
  that result's text and source tag as origin; with \<open>needs_web_fallback\<close> false the pool
  is the local candidates with non-empty text followed by the web candidates with
  non-empty text; and an empty pool gives the empty list as \<open>reranked_results\<close>. The node
  ranks exactly that pool: for a non-empty query its result is the reranked pool when the
  scorer answers, the first 8 local documents (flag false) or the web results turned into
  documents (flag true) when the scorer fails, and the empty list when the pool is empty;
  an empty query gives the empty list. With the flag false, a pool of at most 8
  candidates and one score for each, every local and every web candidate of the pool is
  in the result, with its text and origin.
\<close>

theorem merge_policy:
  "(get_flag (needs_web_fallback s) False \<longrightarrow>
      reranked_results (hybrid_reranker_node e n (s\<lparr>local_results := ls\<rparr>))
        = reranked_results (hybrid_reranker_node e n s)
    \<and> (\<forall>d \<in> set (get_list (reranked_results (hybrid_reranker_node e n s))).
          \<exists>w \<in> set (get_list (web_results s)).
            page_content d = fst (make_candidate_from_web w)
          \<and> metadata d ''origin'' = Some (web_origin w)))
   \<and> candidate_pool False local_docs web_items =
        filter has_text (map make_candidate_from_local local_docs)
        @ filter has_text (map make_candidate_from_web web_items)
   \<and> (candidate_pool (get_flag (needs_web_fallback s) False)
         (get_list (local_results s)) (get_list (web_results s)) = [] \<longrightarrow>
       reranked_results (hybrid_reranker_node e n s) = Some [])
   \<and> (strip (get_str (query s)) = [] \<longrightarrow>
       reranked_results (hybrid_reranker_node e n s) = Some [])
   \<and> (\<not> get_flag (needs_web_fallback s) False \<and> strip (get_str (query s)) \<noteq> [] \<longrightarrow>
       reranked_results (hybrid_reranker_node e n s) =
         (let pool = filter has_text (map make_candidate_from_local (get_list (local_results s)))
                   @ filter has_text (map make_candidate_from_web (get_list (web_results s)))
          in if pool = [] then Some []
             else (case score_with_cross_encoder e n
                          (map (\<lambda>c. (strip (get_str (query s)), fst c)) pool) of
                     None \<Rightarrow> Some (take RERANK_TOP_K (get_list (local_results s)))
                   | Some scores \<Rightarrow> Some (rerank (zip pool scores)))))
   \<and> (get_flag (needs_web_fallback s) False \<and> strip (get_str (query s)) \<noteq> [] \<longrightarrow>
       reranked_results (hybrid_reranker_node e n s) =
         (let pool = filter has_text (map make_candidate_from_web (get_list (web_results s)))
          in if pool = [] then Some []
             else (case score_with_cross_encoder e n
                          (map (\<lambda>c. (strip (get_str (query s)), fst c)) pool) of
                     None \<Rightarrow> Some (fallback_web_docs (get_list (web_results s)))
                   | Some scores \<Rightarrow> Some (rerank (zip pool scores)))))
   \<and> (\<not> get_flag (needs_web_fallback s) False \<and> strip (get_str (query s)) \<noteq> []
        \<and> pool = filter has_text (map make_candidate_from_local (get_list (local_results s)))
                 @ filter has_text (map make_candidate_from_web (get_list (web_results s)))
        \<and> score_with_cross_encoder e n (map (\<lambda>c. (strip (get_str (query s)), fst c)) pool)
            = Some scores
        \<and> length scores = length pool \<and> length pool \<le> RERANK_TOP_K \<longrightarrow>
       length (get_list (reranked_results (hybrid_reranker_node e n s))) = length pool
       \<and> set (map (\<lambda>d. (page_content d, metadata d ''origin''))
                (get_list (reranked_results (hybrid_reranker_node e n s))))
           = set (map (\<lambda>c. (fst c, snd c ''origin'')) pool))"
proof -
  have a: "get_flag (needs_web_fallback s) False \<longrightarrow>
      reranked_results (hybrid_reranker_node e n (s\<lparr>local_results := ls\<rparr>))
        = reranked_results (hybrid_reranker_node e n s)
    \<and> (\<forall>d \<in> set (get_list (reranked_results (hybrid_reranker_node e n s))).
          \<exists>w \<in> set (get_list (web_results s)).
            page_content d = fst (make_candidate_from_web w)
          \<and> metadata d ''origin'' = Some (web_origin w))"
    using reranker_ignores_local [of s e n ls] reranker_web_only [of s _ e n] by blast
  have b: "candidate_pool False local_docs web_items =
        filter has_text (map make_candidate_from_local local_docs)
        @ filter has_text (map make_candidate_from_web web_items)"
    by (simp add: candidate_pool_eq)
  have c: "candidate_pool (get_flag (needs_web_fallback s) False)
         (get_list (local_results s)) (get_list (web_results s)) = [] \<longrightarrow>
       reranked_results (hybrid_reranker_node e n s) = Some []"
    using reranker_empty_pool [of s e n] by blast
  have d: "strip (get_str (query s)) = [] \<longrightarrow>
       reranked_results (hybrid_reranker_node e n s) = Some []"
    using reranker_no_query [of s e n] by blast
  note f = reranker_strong_local [of s e n] and g = reranker_weak_local [of s e n]
    and h = reranker_keeps_all [of s pool e n scores]
  from a b c d f g h show ?thesis by blast
qed

lemma sort_reverse_sorted: "sorted_wrt (\<lambda>a b. key b \<le> key a) (sort_reverse key xs)"
proof -
  have "sorted (map (\<lambda>x. - key x) (sort_reverse key xs))"
    by (simp add: sort_reverse_def)
  then show ?thesis
    by (simp add: sorted_wrt_map)
qed

lemma sort_reverse_stable:
  "filter (\<lambda>x. key x = v) (sort_reverse key xs) = filter (\<lambda>x. key x = v) xs"
proof -
  have "filter (\<lambda>x. - key x = - v) (sort_key (\<lambda>x. - key x) xs) = filter (\<lambda>x. - key x = - v) xs"
    by (rule sort_key_stable)
  then show ?thesis by (simp add: sort_reverse_def)
qed

lemma rerank_scores:
  "map doc_rerank_score (rerank scored)
     = map (\<lambda>x. Some (snd x)) (take RERANK_TOP_K (sort_reverse snd scored))"
  by (auto simp: rerank_def doc_rerank_score_def scored_document_def split: prod.splits)

lemma scored_document_score: "doc_rerank_score (scored_document x) = Some (snd x)"
  by (cases x) (auto simp: doc_rerank_score_def scored_document_def)

lemma rerank_order:
  "length (rerank scored) \<le> 8
   \<and> rerank scored = map scored_document (take 8 (sort_reverse snd scored))
   \<and> sorted_wrt (\<lambda>a b. snd b \<le> snd a) (sort_reverse snd scored)
   \<and> set (sort_reverse snd scored) = set scored
   \<and> length (sort_reverse snd scored) = length scored
   \<and> (\<forall>v. filter (\<lambda>x. snd x = v) (sort_reverse snd scored) = filter (\<lambda>x. snd x = v) scored)
   \<and> map doc_rerank_score (rerank scored) = map (\<lambda>x. Some (snd x)) (take 8 (sort_reverse snd scored))
   \<and> sorted_wrt (\<lambda>a b. \<exists>x y. doc_rerank_score a = Some x \<and> doc_rerank_score b = Some y \<and> y \<le> x)
        (rerank scored)"
proof -
  have s: "sorted_wrt (\<lambda>a b. snd b \<le> snd a) (sort_reverse snd scored)"
    by (rule sort_reverse_sorted)
  then have "sorted_wrt (\<lambda>a b. snd b \<le> snd a) (take 8 (sort_reverse snd scored))"
    by (rule sorted_wrt_take)
  then have o: "sorted_wrt (\<lambda>a b. \<exists>x y. doc_rerank_score a = Some x \<and> doc_rerank_score b = Some y \<and> y \<le> x)
        (rerank scored)"
    by (simp add: rerank_def RERANK_TOP_K_def sorted_wrt_map scored_document_score)
  have f: "\<forall>v. filter (\<lambda>x. snd x = v) (sort_reverse snd scored) = filter (\<lambda>x. snd x = v) scored"
    using sort_reverse_stable [of snd _ scored] by blast
  have m: "map doc_rerank_score (rerank scored) = map (\<lambda>x. Some (snd x)) (take 8 (sort_reverse snd scored))"
    using rerank_scores [of scored] by (simp add: RERANK_TOP_K_def)
  have l: "length (rerank scored) \<le> 8"
    by (simp add: rerank_def RERANK_TOP_K_def)
  have r: "rerank scored = map scored_document (take 8 (sort_reverse snd scored))"
    by (simp add: rerank_def RERANK_TOP_K_def)
  have p: "set (sort_reverse snd scored) = set scored" "length (sort_reverse snd scored) = length scored"
    by (simp_all add: sort_reverse_def)
  from l r s p f m o show ?thesis by blast
qed

text \<open>
  C3. When the query is not empty, the pool is not empty and the scorer returns scores, the
  node stores the reranked pool: the scored candidates sorted by descending score, with
  candidates of equal score in pool order (local before web when there is no fallback),
  cut to the first 8, each document carrying its score as \<open>rerank_score\<close>.
\<close>

theorem reranker_output_order:
  assumes "strip (get_str (query s)) \<noteq> []"
    and "candidate_pool (get_flag (needs_web_fallback s) False)
           (get_list (local_results s)) (get_list (web_results s)) = pool"
    and "pool \<noteq> []"
    and "score_with_cross_encoder e n (map (\<lambda>c. (strip (get_str (query s)), fst c)) pool) = Some scores"
  shows "reranked_results (hybrid_reranker_node e n s) = Some (rerank (zip pool scores))
   \<and> length (rerank (zip pool scores)) \<le> 8
   \<and> rerank (zip pool scores) = map scored_document (take 8 (sort_reverse snd (zip pool scores)))
   \<and> sorted_wrt (\<lambda>a b. snd b \<le> snd a) (sort_reverse snd (zip pool scores))
   \<and> set (sort_reverse snd (zip pool scores)) = set (zip pool scores)
   \<and> (\<forall>v. filter (\<lambda>x. snd x = v) (sort_reverse snd (zip pool scores))
           = filter (\<lambda>x. snd x = v) (zip pool scores))
   \<and> (\<not> get_flag (needs_web_fallback s) False \<longrightarrow>
        pool = filter has_text (map make_candidate_from_local (get_list (local_results s)))
               @ filter has_text (map make_candidate_from_web (get_list (web_results s))))
   \<and> map doc_rerank_score (rerank (zip pool scores))
        = map (\<lambda>x. Some (snd x)) (take 8 (sort_reverse snd (zip pool scores)))
   \<and> sorted_wrt (\<lambda>a b. \<exists>x y. doc_rerank_score a = Some x \<and> doc_rerank_score b = Some y \<and> y \<le> x)
        (rerank (zip pool scores))"
proof -
  have node: "reranked_results (hybrid_reranker_node e n s) = Some (rerank (zip pool scores))"
    using assms by (simp add: hybrid_reranker_node_def Let_def)
  have pool: "\<not> get_flag (needs_web_fallback s) False \<longrightarrow>
        pool = filter has_text (map make_candidate_from_local (get_list (local_results s)))
               @ filter has_text (map make_candidate_from_web (get_list (web_results s)))"
    using assms(2) by (auto simp: candidate_pool_eq)
  from node pool rerank_order [of "zip pool scores"] show ?thesis by blast
qed

lemma strip_samples: "strip ''q'' = ''q''" "strip ''a'' = ''a''" "strip ''b'' = ''b''"
  "strip ''c'' = ''c''" "strip [] = []" "strip ''Title: c'' = ''Title: c''"
  by code_simp+

lemma sample_pool:
  "candidate_pool False (get_list (local_results (sample_state False)))
              (get_list (web_results (sample_state False)))
     = [(''a'', [''origin'' \<mapsto> MStr ''local_rag'']),
        (''b'', [''origin'' \<mapsto> MStr ''local_rag'']),
        (''Title: c'', [''origin'' \<mapsto> MStr ''tavily'', ''title'' \<mapsto> MStr ''c'', ''url'' \<mapsto> MStr []])]"
  by (simp add: candidate_pool_eq sample_state_def get_list_def has_text_def web_origin_def
        make_candidate_from_local_def make_candidate_from_web_def get_str_def strip_samples
        Let_def)

lemma sample_pool_fallback:
  "candidate_pool True (get_list (local_results (sample_state True)))
              (get_list (web_results (sample_state True)))
     = [(''Title: c'', [''origin'' \<mapsto> MStr ''tavily'', ''title'' \<mapsto> MStr ''c'', ''url'' \<mapsto> MStr []])]"
  by (simp add: candidate_pool_eq sample_state_def get_list_def has_text_def web_origin_def
        make_candidate_from_web_def get_str_def strip_samples Let_def)

lemma sample_batches: "batch_iter RERANK_BATCH_SIZE [x, y, z] = [[x, y, z]]"
  by (simp add: RERANK_BATCH_SIZE_def)

lemma sample_query_text: "strip (get_str (query (sample_state b))) = ''q''"
  by (simp add: sample_state_def new_state_def get_str_def strip_samples)

lemma sample_flag: "get_flag (needs_web_fallback (sample_state b)) False = b"
  by (simp add: sample_state_def get_flag_def)

theorem reranker_output_order_witness:
  "map page_content (get_list (reranked_results
      (hybrid_reranker_node scoring_env 0 (sample_state False)))) = [''b'', ''a'', ''Title: c'']
   \<and> map doc_rerank_score (get_list (reranked_results
      (hybrid_reranker_node scoring_env 0 (sample_state False)))) = [Some 2, Some 1, Some 1]"
proof -
  let ?s = "sample_state False"
  let ?pool = "[(''a'', [''origin'' \<mapsto> MStr ''local_rag'']),
        (''b'', [''origin'' \<mapsto> MStr ''local_rag'']),
        (''Title: c'', [''origin'' \<mapsto> MStr ''tavily'', ''title'' \<mapsto> MStr ''c'', ''url'' \<mapsto> MStr []])]"
  have q: "strip (get_str (query ?s)) \<noteq> []"
    by (simp add: sample_query_text)
  have p: "candidate_pool (get_flag (needs_web_fallback ?s) False)
             (get_list (local_results ?s)) (get_list (web_results ?s)) = ?pool"
    unfolding sample_flag by (rule sample_pool)
  have ne: "?pool \<noteq> []" by simp
  have sc: "score_with_cross_encoder scoring_env 0
              (map (\<lambda>c. (strip (get_str (query ?s)), fst c)) ?pool) = Some [1, 2, 1]"
    by (simp add: score_with_cross_encoder_def sample_batches scoring_env_def sample_query_text
          del: batch_iter.simps)
  have r: "sort_reverse snd
             [((''a'', [''origin'' \<mapsto> MStr ''local_rag'']), 1::real),
              ((''b'', [''origin'' \<mapsto> MStr ''local_rag'']), 2),
              ((''Title: c'', [''origin'' \<mapsto> MStr ''tavily'', ''title'' \<mapsto> MStr ''c'',
                  ''url'' \<mapsto> MStr []]), 1)] =
             [((''b'', [''origin'' \<mapsto> MStr ''local_rag'']), 2),
              ((''a'', [''origin'' \<mapsto> MStr ''local_rag'']), 1),
              ((''Title: c'', [''origin'' \<mapsto> MStr ''tavily'', ''title'' \<mapsto> MStr ''c'',
                  ''url'' \<mapsto> MStr []]), 1)]"
    by (simp add: sort_reverse_def)
  from reranker_output_order [OF q p ne sc]
  have "reranked_results (hybrid_reranker_node scoring_env 0 ?s) = Some (rerank (zip ?pool [1, 2, 1]))"
    by blast
  then show ?thesis
    by (simp add: get_list_def rerank_def r RERANK_TOP_K_def scored_document_def
          doc_rerank_score_def)
qed

lemma sample_fallback_flag: "get_flag (needs_web_fallback (sample_state True)) False"
  by (simp add: sample_state_def get_flag_def)

lemma sample_empty_pool:
  "candidate_pool (get_flag (needs_web_fallback ((new_state ''q'')\<lparr>needs_web_fallback := Some True\<rparr>)) False)
     (get_list (local_results ((new_state ''q'')\<lparr>needs_web_fallback := Some True\<rparr>)))
     (get_list (web_results ((new_state ''q'')\<lparr>needs_web_fallback := Some True\<rparr>))) = []"
  by (simp add: candidate_pool_eq new_state_def get_list_def get_flag_def)

lemma sample_fallback_result:
  "reranked_results (hybrid_reranker_node scoring_env 0 (sample_state True))
     = Some (rerank (zip [(''Title: c'', [''origin'' \<mapsto> MStr ''tavily'',
                   ''title'' \<mapsto> MStr ''c'', ''url'' \<mapsto> MStr []])] [1]))"
  using sample_fallback_flag
  by (simp add: hybrid_reranker_node_def sample_query_text sample_pool_fallback
        score_with_cross_encoder_def scoring_env_def RERANK_BATCH_SIZE_def Let_def)

lemma sample_fallback_texts:
  "map page_content (get_list (reranked_results
      (hybrid_reranker_node scoring_env 0 (sample_state True)))) = [''Title: c'']"
  unfolding sample_fallback_result
  by (simp add: get_list_def rerank_def sort_reverse_def RERANK_TOP_K_def scored_document_def)

lemma sample_fallback_origins:
  "map (\<lambda>d. metadata d ''origin'') (get_list (reranked_results
      (hybrid_reranker_node scoring_env 0 (sample_state True)))) = [Some (MStr ''tavily'')]"
  unfolding sample_fallback_result
  by (simp add: get_list_def rerank_def sort_reverse_def RERANK_TOP_K_def scored_document_def)

lemma sample_strong_flag: "\<not> get_flag (needs_web_fallback (sample_state False)) False"
  by (simp add: sample_state_def get_flag_def)

lemma sample_pool_parts:
  "filter has_text (map make_candidate_from_local (get_list (local_results (sample_state False))))
   @ filter has_text (map make_candidate_from_web (get_list (web_results (sample_state False))))
     = [(''a'', [''origin'' \<mapsto> MStr ''local_rag'']),
        (''b'', [''origin'' \<mapsto> MStr ''local_rag'']),
        (''Title: c'', [''origin'' \<mapsto> MStr ''tavily'', ''title'' \<mapsto> MStr ''c'', ''url'' \<mapsto> MStr []])]"
  using sample_pool by (simp add: candidate_pool_eq)

lemma sample_scores:
  "score_with_cross_encoder scoring_env 0
     (map (\<lambda>c. (strip (get_str (query (sample_state False))), fst c))
        [(''a'', [''origin'' \<mapsto> MStr ''local_rag'']),
         (''b'', [''origin'' \<mapsto> MStr ''local_rag'']),
         (''Title: c'', [''origin'' \<mapsto> MStr ''tavily'', ''title'' \<mapsto> MStr ''c'', ''url'' \<mapsto> MStr []])])
   = Some [1, 2, 1]"
  by (simp add: score_with_cross_encoder_def sample_batches scoring_env_def sample_query_text
        del: batch_iter.simps)

lemma sample_query_nonempty: "strip (get_str (query (sample_state b))) \<noteq> []"
  by (simp add: sample_query_text)

theorem merge_policy_witness:
  "get_flag (needs_web_fallback (sample_state True)) False
   \<and> map page_content (get_list (reranked_results
        (hybrid_reranker_node scoring_env 0 (sample_state True)))) = [''Title: c'']
   \<and> map (\<lambda>d. metadata d ''origin'') (get_list (reranked_results
        (hybrid_reranker_node scoring_env 0 (sample_state True)))) = [Some (MStr ''tavily'')]
   \<and> reranked_results (hybrid_reranker_node scoring_env 0
          ((sample_state True)\<lparr>local_results := Some []\<rparr>))
       = reranked_results (hybrid_reranker_node scoring_env 0 (sample_state True))
   \<and> reranked_results (hybrid_reranker_node scoring_env 0
        ((new_state ''q'')\<lparr>needs_web_fallback := Some True\<rparr>)) = Some []
   \<and> \<not> get_flag (needs_web_fallback (sample_state False)) False
   \<and> strip (get_str (query (sample_state False))) \<noteq> []
   \<and> length (get_list (reranked_results
        (hybrid_reranker_node scoring_env 0 (sample_state False)))) = 3
   \<and> set (map (\<lambda>d. (page_content d, metadata d ''origin'')) (get_list (reranked_results
        (hybrid_reranker_node scoring_env 0 (sample_state False)))))
       = {(''a'', Some (MStr ''local_rag'')), (''b'', Some (MStr ''local_rag'')),
          (''Title: c'', Some (MStr ''tavily''))}"
proof -
  let ?pool = "[(''a'', [''origin'' \<mapsto> MStr ''local_rag'']),
        (''b'', [''origin'' \<mapsto> MStr ''local_rag'']),
        (''Title: c'', [''origin'' \<mapsto> MStr ''tavily'', ''title'' \<mapsto> MStr ''c'', ''url'' \<mapsto> MStr []])]"
  have t1: "reranked_results (hybrid_reranker_node scoring_env 0
              ((sample_state True)\<lparr>local_results := Some []\<rparr>))
            = reranked_results (hybrid_reranker_node scoring_env 0 (sample_state True))"
    using sample_fallback_flag
      merge_policy [of "sample_state True" scoring_env 0 "Some []" "[]" "[]" "[]" "[]"]
    by blast
  have t2: "reranked_results (hybrid_reranker_node scoring_env 0
              ((new_state ''q'')\<lparr>needs_web_fallback := Some True\<rparr>)) = Some []"
    using sample_empty_pool
      merge_policy [of "(new_state ''q'')\<lparr>needs_web_fallback := Some True\<rparr>"
        scoring_env 0 "Some []" "[]" "[]" "[]" "[]"]
    by blast
  have len: "length [1::real, 2, 1] = length ?pool" "length ?pool \<le> RERANK_TOP_K"
    by (simp_all add: RERANK_TOP_K_def)
  have t3: "length (get_list (reranked_results
              (hybrid_reranker_node scoring_env 0 (sample_state False)))) = length ?pool
          \<and> set (map (\<lambda>d. (page_content d, metadata d ''origin'')) (get_list (reranked_results
              (hybrid_reranker_node scoring_env 0 (sample_state False)))))
             = set (map (\<lambda>c. (fst c, snd c ''origin'')) ?pool)"
    using sample_strong_flag sample_query_nonempty [of False] sample_pool_parts [symmetric]
      sample_scores len
      merge_policy [of "sample_state False" scoring_env 0 "Some []" "[]" "[]" ?pool "[1, 2, 1]"]
    by blast
  from t3 have t4: "length (get_list (reranked_results
              (hybrid_reranker_node scoring_env 0 (sample_state False)))) = 3"
    by simp
  from t3 have t5: "set (map (\<lambda>d. (page_content d, metadata d ''origin'')) (get_list (reranked_results
        (hybrid_reranker_node scoring_env 0 (sample_state False)))))
       = {(''a'', Some (MStr ''local_rag'')), (''b'', Some (MStr ''local_rag'')),
          (''Title: c'', Some (MStr ''tavily''))}"
    by simp
  show ?thesis
    by (intro conjI sample_fallback_flag sample_fallback_texts sample_fallback_origins t1 t2
          sample_strong_flag sample_query_nonempty t4 t5)
qed

section \<open>The output finalizer\<close>

lemma strip_trimmed: "trimmed r \<Longrightarrow> strip r = r"
proof (cases r)
  case Nil
  then show ?thesis by (simp add: strip_def lstrip_def rstrip_def)
next
  case (Cons c cs)
  assume "trimmed r"
  with Cons have h: "\<not> py_isspace c" and l: "\<not> py_isspace (last (c # cs))"
    by (auto simp: trimmed_def)
  have "lstrip r = r" using Cons h by (simp add: lstrip_def)
  moreover have "rstrip r = r"
  proof -
    have "rev r \<noteq> []" using Cons by simp
    moreover have "hd (rev r) = last r" using Cons by (simp add: hd_rev)
    ultimately have "dropWhile py_isspace (rev r) = rev r"
      using l Cons by (cases "rev r") auto
    then show ?thesis by (simp add: rstrip_def)
  qed
  ultimately show ?thesis by (simp add: strip_def)
qed

lemma trimmed_strip: "trimmed (strip s)"
proof (cases "lstrip s = []")
  case True
  then show ?thesis by (simp add: strip_def rstrip_def trimmed_def)
next
  case False
  let ?t = "lstrip s"
  let ?w = "dropWhile py_isspace (rev ?t)"
  from False have ht: "\<not> py_isspace (hd ?t)"
    unfolding lstrip_def by (rule hd_dropWhile)
  have "last (rev ?t) = hd ?t" using False by (simp add: last_rev)
  with ht False have ex: "\<exists>x \<in> set (rev ?t). \<not> py_isspace x"
    by (metis last_in_set rev_is_Nil_conv)
  then have w: "?w \<noteq> []" by (simp add: dropWhile_eq_Nil_conv)
  then have hw: "\<not> py_isspace (hd ?w)" by (rule hd_dropWhile)
  have "?w = drop (length (takeWhile py_isspace (rev ?t))) (rev ?t)"
    by (rule dropWhile_eq_drop)
  moreover from w have "length (takeWhile py_isspace (rev ?t)) < length (rev ?t)"
    by (metis calculation drop_all not_le)
  ultimately have "last ?w = last (rev ?t)"
    by (metis last_drop)
  then have lw: "last ?w = hd ?t" using False by (simp add: last_rev)
  have s: "strip s = rev ?w" by (simp add: strip_def rstrip_def)
  have "hd (rev ?w) = last ?w" "last (rev ?w) = hd ?w"
    using w by (simp_all add: hd_rev last_rev)
  with hw ht lw w show ?thesis
    unfolding s trimmed_def by simp
qed

lemma strip_idem: "strip (strip s) = strip s"
  by (rule strip_trimmed [OF trimmed_strip])

lemma triple_free_tl: "triple_free (a # s) \<Longrightarrow> triple_free s"
  by (cases s rule: triple_free.cases) auto

lemma triple_free_drop: "triple_free s \<Longrightarrow> triple_free (drop n s)"
proof (induction n arbitrary: s)
  case 0
  then show ?case by simp
next
  case (Suc n)
  show ?case
  proof (cases s)
    case Nil
    then show ?thesis by simp
  next
    case (Cons a t)
    with Suc.prems have "triple_free t" by (auto dest: triple_free_tl)
    from Suc.IH [OF this] Cons show ?thesis by simp
  qed
qed

lemma short_triple_free: "length s < 3 \<Longrightarrow> triple_free s"
  by (cases s rule: triple_free.cases) auto

lemma triple_free_take: "triple_free s \<Longrightarrow> triple_free (take n s)"
proof (induction s arbitrary: n rule: triple_free.induct)
  case (1 a b c r)
  show ?case
  proof (cases n)
    case 0
    then show ?thesis by simp
  next
    case (Suc m)
    from "1.prems" have tf: "triple_free (b # c # r)" and nt: "\<not> (a = CHR ''\<newline>'' \<and> b = CHR ''\<newline>'' \<and> c = CHR ''\<newline>'')"
      by simp_all
    from "1.IH" [OF tf, of m] have ih: "triple_free (take m (b # c # r))" .
    show ?thesis
    proof (cases m)
      case 0
      with Suc show ?thesis by simp
    next
      case (Suc k)
      note m = this
      show ?thesis
      proof (cases k)
        case 0
        with m \<open>n = Suc m\<close> show ?thesis by simp
      next
        case (Suc j)
        with m \<open>n = Suc m\<close> ih nt show ?thesis by simp
      qed
    qed
  qed
qed (simp_all add: short_triple_free)

lemma triple_free_strip: "triple_free s \<Longrightarrow> triple_free (strip s)"
proof -
  assume tf: "triple_free s"
  have l: "lstrip s = drop (length (takeWhile py_isspace s)) s"
    unfolding lstrip_def by (rule dropWhile_eq_drop)
  have r: "rstrip t = take (length t - length (takeWhile py_isspace (rev t))) t" for t
  proof -
    have "rstrip t = rev (drop (length (takeWhile py_isspace (rev t))) (rev t))"
      unfolding rstrip_def by (simp add: dropWhile_eq_drop)
    then show ?thesis by (simp add: rev_drop)
  qed
  from tf have "triple_free (lstrip s)" unfolding l by (rule triple_free_drop)
  then have "triple_free (rstrip (lstrip s))"
    unfolding r [of "lstrip s"] by (rule triple_free_take)
  then show ?thesis by (simp add: strip_def)
qed

lemma collapse_head:
  "a \<noteq> CHR ''\<newline>'' \<Longrightarrow> collapse_newlines (a # s) = a # collapse_newlines s"
  by (cases "a # s" rule: collapse_newlines.cases) auto

lemma collapse_second:
  "b \<noteq> CHR ''\<newline>'' \<Longrightarrow> collapse_newlines (a # b # s) = a # b # collapse_newlines s"
  by (cases s) (simp_all add: collapse_head)

lemma triple_free_collapse: "triple_free (collapse_newlines s)"
proof (induction s rule: collapse_newlines.induct)
  case (1 a b c r)
  show ?case
  proof (cases "a = CHR ''\<newline>'' \<and> b = CHR ''\<newline>'' \<and> c = CHR ''\<newline>''")
    case True
    with "1.IH"(1) show ?thesis by simp
  next
    case False
    with "1.IH"(2) have ih: "triple_free (collapse_newlines (b # c # r))" by simp
    have eq: "collapse_newlines (a # b # c # r) = a # collapse_newlines (b # c # r)"
      using False by simp
    show ?thesis
    proof (cases "b = CHR ''\<newline>''")
      case bn: False
      then have "collapse_newlines (b # c # r) = b # collapse_newlines (c # r)"
        by (rule collapse_head)
      with ih bn show ?thesis unfolding eq
        by (cases "collapse_newlines (c # r)") auto
    next
      case bn: True
      show ?thesis
      proof (cases "c = CHR ''\<newline>''")
        case cn: False
        then have "collapse_newlines (b # c # r) = b # c # collapse_newlines r"
          by (rule collapse_second)
        with ih cn show ?thesis unfolding eq by simp
      next
        case cn: True
        with bn False have an: "a \<noteq> CHR ''\<newline>''" by simp
        from ih an show ?thesis unfolding eq
          by (cases "collapse_newlines (b # c # r)" rule: triple_free.cases) auto
      qed
    qed
  qed
qed simp_all

lemma collapse_triple_free: "triple_free s \<Longrightarrow> collapse_newlines s = s"
  by (induction s rule: collapse_newlines.induct) auto

lemma foldl_fixed:
  "\<forall>p \<in> set ps. f p y = y \<Longrightarrow> foldl (\<lambda>t p. f p t) y ps = y"
  by (induction ps) auto

lemma finalize_shape: "trimmed (finalize x) \<and> triple_free (finalize x)"
proof -
  let ?t = "strip_think_tags (strip x)"
  show ?thesis
  proof (cases "?t = []")
    case True
    then show ?thesis
      by (simp add: finalize_def clean_text_def sanitize_output_def strip_Nil trimmed_def)
  next
    case False
    then obtain z where "sanitize_output ?t = strip (collapse_newlines z)"
      by (simp add: sanitize_output_def)
    then have f: "finalize x = strip (strip (collapse_newlines z))"
      by (simp add: finalize_def clean_text_def)
    show ?thesis
      unfolding f
      by (intro conjI trimmed_strip triple_free_strip triple_free_collapse)
  qed
qed

text \<open>
  C9 (as amended). The finalizing transformation (trim, remove think blocks, trim, remove
  the forbidden phrases, collapse runs of newlines, trim) leaves its own output unchanged
  whenever that output holds no think block and no forbidden phrase any more, that is,
  whenever the one pass of removals has left nothing for a second pass to remove.
\<close>

theorem finalize_stable_idempotent:
  assumes "remove_think (finalize x) = finalize x"
    and "\<forall>p \<in> set FORBIDDEN_PATTERNS. remove_phrase p False (finalize x) = finalize x"
  shows "finalize (finalize x) = finalize x"
proof -
  let ?y = "finalize x"
  from finalize_shape [of x] have tr: "trimmed ?y" and tf: "triple_free ?y" by simp_all
  have s: "strip ?y = ?y" by (rule strip_trimmed [OF tr])
  have t: "strip_think_tags ?y = ?y"
    using assms(1) s by (simp add: strip_think_tags_def)
  have "foldl (\<lambda>t pat. remove_phrase pat False t) ?y FORBIDDEN_PATTERNS = ?y"
    using assms(2) by (rule foldl_fixed)
  then have c: "sanitize_output ?y = ?y"
    using s collapse_triple_free [OF tf] by (simp add: sanitize_output_def)
  show ?thesis
    by (simp add: finalize_def [of ?y] clean_text_def [of ?y] s t c)
qed

lemma output_node_finalize:
  "verification s = None \<Longrightarrow>
   output_node e s = Inr (s\<lparr>final_output := Some (finalize (get_str (reasoning_output s)))\<rparr>)"
  by (simp add: output_node_def parse_verifier_json_def improved_answer_of_def finalize_def Let_def)

lemma finalize_nested: "finalize ''<thi<think>a</think>nk>b</think>'' = ''<think>b</think>''"
  by code_simp

lemma finalize_nested_again: "finalize ''<think>b</think>'' = []"
  by code_simp

text \<open>
  Without that condition the transformation is not idempotent: removing a think block can
  put the two halves of an opening tag together, and the second application removes the
  block that the first one left standing.
\<close>

theorem finalize_not_idempotent:
  "finalize (finalize ''<thi<think>a</think>nk>b</think>'')
     \<noteq> finalize ''<thi<think>a</think>nk>b</think>''"
  by (simp add: finalize_nested finalize_nested_again)

lemma finalize_example: "finalize ''<think>internal</think>Final answer: 4'' = ''Final answer: 4''"
  by code_simp

lemma example_no_think: "remove_think ''Final answer: 4'' = ''Final answer: 4''"
  by code_simp

lemma example_no_phrase:
  "\<forall>p \<in> set FORBIDDEN_PATTERNS. remove_phrase p False ''Final answer: 4'' = ''Final answer: 4''"
  by code_simp

theorem finalize_stable_idempotent_witness:
  "remove_think (finalize ''<think>internal</think>Final answer: 4'')
     = finalize ''<think>internal</think>Final answer: 4''
   \<and> list_all (\<lambda>p. remove_phrase p False (finalize ''<think>internal</think>Final answer: 4'')
                      = finalize ''<think>internal</think>Final answer: 4'') FORBIDDEN_PATTERNS
   \<and> finalize ''<think>internal</think>Final answer: 4'' = ''Final answer: 4''
   \<and> finalize (finalize ''<think>internal</think>Final answer: 4'') = ''Final answer: 4''"
proof -
  have a: "remove_think (finalize ''<think>internal</think>Final answer: 4'')
             = finalize ''<think>internal</think>Final answer: 4''"
    unfolding finalize_example by (rule example_no_think)
  have b: "\<forall>p \<in> set FORBIDDEN_PATTERNS.
         remove_phrase p False (finalize ''<think>internal</think>Final answer: 4'')
           = finalize ''<think>internal</think>Final answer: 4''"
    unfolding finalize_example by (rule example_no_phrase)
  from finalize_stable_idempotent [OF a b]
  have c: "finalize (finalize ''<think>internal</think>Final answer: 4'') = ''Final answer: 4''"
    unfolding finalize_example .
  show ?thesis
    by (intro conjI a b [folded list_all_iff] finalize_example c)
qed

section \<open>The decomposition heuristic\<close>

lemma split_on_first_at:
  "i < length ts \<Longrightarrow> contains lowered (ts ! i) \<Longrightarrow> \<forall>j<i. \<not> contains lowered (ts ! j) \<Longrightarrow>
   split_on_first q lowered ts = stripped_parts q (ts ! i)"
proof (induction ts arbitrary: i)
  case Nil
  then show ?case by simp
next
  case (Cons t ts)
  show ?case
  proof (cases i)
    case 0
    with Cons.prems show ?thesis by simp
  next
    case (Suc k)
    with Cons.prems have "\<not> contains lowered t" by auto
    moreover from Suc Cons.prems have "k < length ts" "contains lowered (ts ! k)"
      "\<forall>j<k. \<not> contains lowered (ts ! j)" by auto
    ultimately show ?thesis using Cons.IH [of k] Suc by simp
  qed
qed

lemma startswith_lower: "startswith s p \<Longrightarrow> startswith (lower s) (lower p)"
  by (induction s p rule: startswith.induct) (auto simp: lower_def)

lemma contains_lower: "contains s p \<Longrightarrow> contains (lower s) (lower p)"
proof (induction s)
  case Nil
  then show ?case by (simp add: lower_def)
next
  case (Cons c cs)
  then show ?case
    using startswith_lower [of "c # cs" p] by (auto simp: lower_def)
qed

lemma triggers_lower: "\<forall>t \<in> set triggers. lower t = t"
  by code_simp

lemma py_split_from_nonempty: "py_split_from sep acc s \<noteq> []"
  by (induction sep acc s rule: py_split_from.induct) auto

lemma py_join_cons: "ps \<noteq> [] \<Longrightarrow> py_join sep (p # ps) = p @ sep @ py_join sep ps"
  by (cases ps) auto

lemma py_join_split_from: "py_join sep (py_split_from sep acc s) = rev acc @ s"
proof (induction sep acc s rule: py_split_from.induct)
  case (1 sep acc)
  then show ?case by simp
next
  case (2 sep acc c cs)
  show ?case
  proof (cases "sep \<noteq> [] \<and> startswith (c # cs) sep")
    case True
    then obtain r where r: "c # cs = sep @ r" by (auto simp: startswith_iff)
    from True obtain h t where sep: "sep = h # t" by (cases sep) auto
    with r have cs: "cs = t @ r" by simp
    have d: "drop (length sep - 1) cs = r" by (simp add: sep cs)
    have ih: "py_join sep (py_split_from sep [] r) = r"
      using "2.IH"(1) True unfolding d by simp
    have "py_split_from sep acc (c # cs) = rev acc # py_split_from sep [] r"
      using True unfolding py_split_from.simps d by simp
    then have "py_join sep (py_split_from sep acc (c # cs)) = rev acc @ sep @ r"
      by (simp add: py_join_cons py_split_from_nonempty ih)
    then show ?thesis by (simp add: r)
  next
    case False
    with "2.IH"(2) show ?thesis by auto
  qed
qed

lemma py_join_split: "py_join sep (py_split q sep) = q"
  by (simp add: py_split_def py_join_split_from)

lemma stripped_parts_clean: "\<forall>p \<in> set (stripped_parts q t). p \<noteq> [] \<and> strip p = p"
  by (auto simp: stripped_parts_def strip_idem)

lemma example_split:
  "heuristic_split example_query = [''First solve x^2=16'', ''then find derivative of x^3.'']"
  by code_simp

lemma query_breaker_heuristic:
  assumes "strip (get_str (query s)) = q" "2 \<le> length (heuristic_split q)"
  shows "query_breaker e s = (s\<lparr>broken_queries := Some (heuristic_split q)\<rparr>, 0)"
  using assms by (simp add: query_breaker_def Let_def)

text \<open>
  C7 (as amended). When one of the triggers (the connective words in lower case with a
  space on either side) occurs in the query as written, and no trigger earlier in the list
  occurs in the lowered query, the heuristic returns the pieces of the query between the
  occurrences of that trigger, trimmed, without the empty ones; joining the untrimmed
  pieces with the trigger gives the query back; with two or more pieces the node stores
  them without calling the model; and the two-part example query gives exactly two pieces.
\<close>

theorem heuristic_split_on_first_trigger:
  assumes "i < length triggers"
    and "contains q (triggers ! i)"
    and "\<forall>j<i. \<not> contains (lower q) (triggers ! j)"
  shows "heuristic_split q = filter (\<lambda>p. p \<noteq> []) (map strip (py_split q (triggers ! i)))
       \<and> py_join (triggers ! i) (py_split q (triggers ! i)) = q
       \<and> (\<forall>p \<in> set (heuristic_split q). p \<noteq> [] \<and> strip p = p)
       \<and> (strip (get_str (query s)) = q \<and> 2 \<le> length (heuristic_split q) \<longrightarrow>
            query_breaker e s = (s\<lparr>broken_queries := Some (heuristic_split q)\<rparr>, 0))
       \<and> heuristic_split ''First solve x^2=16 and then find derivative of x^3.''
            = [''First solve x^2=16'', ''then find derivative of x^3.'']"
proof -
  from assms(1) have "triggers ! i \<in> set triggers" by simp
  with triggers_lower have "lower (triggers ! i) = triggers ! i" by blast
  with contains_lower [OF assms(2)] have c: "contains (lower q) (triggers ! i)" by simp
  have h: "heuristic_split q = stripped_parts q (triggers ! i)"
    unfolding heuristic_split_def by (rule split_on_first_at [OF assms(1) c assms(3)])
  have a: "heuristic_split q = filter (\<lambda>p. p \<noteq> []) (map strip (py_split q (triggers ! i)))"
    unfolding h by (simp add: stripped_parts_def)
  have b: "\<forall>p \<in> set (heuristic_split q). p \<noteq> [] \<and> strip p = p"
    unfolding h by (rule stripped_parts_clean)
  have d: "strip (get_str (query s)) = q \<and> 2 \<le> length (heuristic_split q) \<longrightarrow>
            query_breaker e s = (s\<lparr>broken_queries := Some (heuristic_split q)\<rparr>, 0)"
    using query_breaker_heuristic [of s q e] by blast
  from a py_join_split [of "triggers ! i" q] b d example_split [unfolded example_query_def]
  show ?thesis by blast
qed

lemma example_has_and: "contains example_query (triggers ! 0)"
  by code_simp

lemma example_stripped: "strip (get_str (query (new_state example_query))) = example_query"
  by code_simp

theorem heuristic_split_on_first_trigger_witness:
  "0 < length triggers
   \<and> contains example_query (triggers ! 0)
   \<and> heuristic_split example_query = [''First solve x^2=16'', ''then find derivative of x^3.'']
   \<and> query_breaker keyed_env (new_state example_query)
       = ((new_state example_query)\<lparr>broken_queries :=
            Some [''First solve x^2=16'', ''then find derivative of x^3.'']\<rparr>, 0)"
proof -
  have l: "0 < length triggers" by (simp add: triggers_def)
  have n: "\<forall>j<0::nat. \<not> contains (lower example_query) (triggers ! j)" by simp
  have two: "2 \<le> length (heuristic_split example_query)"
    unfolding example_split by simp
  from heuristic_split_on_first_trigger [OF l example_has_and n,
      of "new_state example_query" keyed_env] example_stripped two
  have "query_breaker keyed_env (new_state example_query)
          = ((new_state example_query)\<lparr>broken_queries := Some (heuristic_split example_query)\<rparr>, 0)"
    by blast
  then have q: "query_breaker keyed_env (new_state example_query)
       = ((new_state example_query)\<lparr>broken_queries :=
            Some [''First solve x^2=16'', ''then find derivative of x^3.'']\<rparr>, 0)"
    unfolding example_split .
  show ?thesis by (intro conjI l example_has_and example_split q)
qed

lemma comma_has_next: "spec_has_word comma_query ''next''"
  by code_simp

lemma comma_no_higher:
  "\<not> spec_has_word comma_query ''and'' \<and> \<not> spec_has_word comma_query ''then''
   \<and> \<not> spec_has_word comma_query ''also''"
  by code_simp

lemma comma_fragments: "spec_fragments comma_query ''next'' = [''find x'', '', find y'']"
  by code_simp

lemma comma_unsplit: "heuristic_split comma_query = [comma_query]"
  by code_simp

lemma comma_stripped: "strip (get_str (query (new_state comma_query))) = comma_query"
  by code_simp

lemma comma_llm_call: "snd (query_breaker keyed_env (new_state comma_query)) = 1"
  by (simp add: query_breaker_def comma_stripped comma_unsplit llm_split_def keyed_env_def
        offline_env_def Let_def)

text \<open>
  The specification's sentence does not hold for a connective that is a whole word without a space on both
  sides: with a comma behind it the heuristic finds no trigger, returns the query unsplit,
  and the node calls the model, although splitting at the word would give two pieces.
\<close>

theorem whole_word_connective_not_split:
  "spec_has_word comma_query ''next''
   \<and> \<not> spec_has_word comma_query ''and'' \<and> \<not> spec_has_word comma_query ''then''
   \<and> \<not> spec_has_word comma_query ''also''
   \<and> spec_fragments comma_query ''next'' = [''find x'', '', find y'']
   \<and> heuristic_split comma_query = [comma_query]
   \<and> snd (query_breaker keyed_env (new_state comma_query)) = 1"
  using comma_has_next comma_no_higher comma_fragments comma_unsplit comma_llm_call
  by blast

lemma uppercase_connective_not_split:
  "heuristic_split ''solve x AND find y'' = [''solve x AND find y'']"
  by code_simp

end
